theory Spec2Isabelle
  imports Complex_Main "HOL-Library.Sublist"
begin

chapter \<open>The Slack connector of warmachine-ng\<close>

text \<open>
  A model of the class \<^verbatim>\<open>SlackWS\<close> of \<^verbatim>\<open>warmachine/connections/slack.py\<close>: its state, its
  methods as functions on that state, the exceptions they raise as results, and what
  the network and the libraries answer as parameters. The definitions come first,
  then concrete data, then the properties.
\<close>

section \<open>Python values\<close>

text \<open>
  Everything the connector receives is the result of \<^verbatim>\<open>json.loads\<close>. A decoded object
  is a Python dict with string keys; it is modelled as a map, so that two dicts are equal
  exactly when they have the same keys and values. Numbers are idealised as reals
  (rounding of floats and the special values NaN and Infinity are not modelled).
  \<open>JNull\<close> is Python's \<^verbatim>\<open>None\<close>.
\<close>

datatype json =
    JNull
  | JBool bool
  | JNum real
  | JStr string
  | JList "json list"
  | JObj "string \<Rightarrow> json option"

text \<open>The exceptions the code can raise. \<open>PyException\<close> is the bare \<^verbatim>\<open>Exception(msg)\<close>.\<close>

datatype py_error =
    KeyError
  | TypeError
  | AttributeError
  | ConnectionClosed
  | JSONDecodeError
  | URLError
  | OSError
  | PyException string

type_synonym 'a res = "py_error + 'a"

text \<open>
  The caches are dicts keyed by values taken out of decoded JSON. A list or a dict is
  unhashable (\<^verbatim>\<open>TypeError\<close>); \<^verbatim>\<open>True\<close> and \<^verbatim>\<open>1\<close> are the same key.
\<close>

datatype pykey = KNone | KNum real | KStr string

fun key_of :: "json \<Rightarrow> pykey res" where
  "key_of JNull = Inr KNone"
| "key_of (JBool b) = Inr (KNum (if b then 1 else 0))"
| "key_of (JNum r) = Inr (KNum r)"
| "key_of (JStr s) = Inr (KStr s)"
| "key_of (JList xs) = Inl TypeError"
| "key_of (JObj d) = Inl TypeError"

text \<open>\<^verbatim>\<open>v[k]\<close> for a string \<open>k\<close>: only a dict can be subscripted by a string.\<close>

fun subscript :: "json \<Rightarrow> string \<Rightarrow> json res" where
  "subscript (JObj d) k = (case d k of None \<Rightarrow> Inl KeyError | Some v \<Rightarrow> Inr v)"
| "subscript v k = Inl TypeError"

text \<open>Truthiness, as \<^verbatim>\<open>if v:\<close>, \<^verbatim>\<open>not v\<close>, \<^verbatim>\<open>a and b\<close> and \<^verbatim>\<open>a or b\<close> test it.\<close>

fun truthy :: "json \<Rightarrow> bool" where
  "truthy JNull = False"
| "truthy (JBool b) = b"
| "truthy (JNum r) = (r \<noteq> 0)"
| "truthy (JStr s) = (s \<noteq> [])"
| "truthy (JList xs) = (xs \<noteq> [])"
| "truthy (JObj d) = (d \<noteq> Map.empty)"

section \<open>The connector's state\<close>

datatype log_level = DEBUG | INFO | ERROR

text \<open>
  A log record keeps the level, the format string and the arguments of the call; the
  rendered text is not modelled.
\<close>

datatype log_entry = Log log_level string "json list"

datatype conn_status = INITALIZED | CONNECTING | CONNECTED

record transport =
  url :: json
  is_closed :: bool

datatype callback = StartPing
datatype task = DoPing

text \<open>
  The fields of \<^verbatim>\<open>SlackWS\<close>, in the order of \<^verbatim>\<open>__init__\<close>, then the cache that
  \<^verbatim>\<open>@memoize\<close> keeps for \<^verbatim>\<open>get_dm_id_by_user\<close>, then what the connector does to the
  outside world: the log, the frames written to the websocket (a frame is represented
  by the value \<^verbatim>\<open>json.dumps\<close> serialises), the user ids of the \<^verbatim>\<open>im.open\<close> calls made,
  the number of \<^verbatim>\<open>rtm.start\<close> calls made, the durations slept, and what was handed
  to the event loop with \<^verbatim>\<open>call_later\<close> and \<^verbatim>\<open>ensure_future\<close>.
\<close>

record slack_ws =
  host :: json
  token :: string
  info :: json
  reconnect_url :: string
  channel_map :: "pykey \<Rightarrow> json option"
  channel_name_to_id :: "pykey \<Rightarrow> json option"
  user_map :: "pykey \<Rightarrow> json option"
  user_nick_to_id :: "pykey \<Rightarrow> json option"
  nick :: json
  my_id :: json
  ws :: "transport option"
  internal_msgid :: int
  internal_pingid :: int
  lag_in_ms :: real
  status :: conn_status
  STATUS :: "conn_status option"
  dm_cache :: "pykey \<Rightarrow> json option"
  logged :: "log_entry list"
  sent :: "json list"
  dm_calls :: "json list"
  auth_calls :: nat
  sleeps :: "nat list"
  call_later :: "(nat \<times> callback) list"
  futures :: "task list"

definition init :: "string \<Rightarrow> slack_ws" where
  "init tok = \<lparr> host = JNull, token = tok, info = JNull, reconnect_url = [],
     channel_map = Map.empty, channel_name_to_id = Map.empty,
     user_map = Map.empty, user_nick_to_id = Map.empty,
     nick = JStr [], my_id = JStr ''000'', ws = None,
     internal_msgid = 0, internal_pingid = 0, lag_in_ms = 0,
     status = INITALIZED, STATUS = None, dm_cache = Map.empty,
     logged = [], sent = [], dm_calls = [], auth_calls = 0, sleeps = [],
     call_later = [], futures = [] \<rparr>"

definition logmsg :: "log_level \<Rightarrow> string \<Rightarrow> json list \<Rightarrow> slack_ws \<Rightarrow> slack_ws" where
  "logmsg lvl fmt args s = s\<lparr>logged := logged s @ [Log lvl fmt args]\<rparr>"

section \<open>Raising and returning\<close>

text \<open>
  A method is a function from the state to a result and the state it leaves behind.
  The state is returned on the error side too: what a method has assigned before it
  raises stays assigned. \<open>orraise r s f\<close> continues with \<open>f\<close> on the value of \<open>r\<close>, or
  raises the error of \<open>r\<close> in state \<open>s\<close>; \<open>andthen\<close> sequences two methods.
\<close>

fun orraise :: "'a res \<Rightarrow> slack_ws \<Rightarrow> ('a \<Rightarrow> 'b res \<times> slack_ws) \<Rightarrow> 'b res \<times> slack_ws" where
  "orraise (Inl e) s f = (Inl e, s)"
| "orraise (Inr v) s f = f v"

fun andthen :: "'a res \<times> slack_ws \<Rightarrow> ('a \<Rightarrow> slack_ws \<Rightarrow> 'b res \<times> slack_ws) \<Rightarrow> 'b res \<times> slack_ws" where
  "andthen (Inl e, s) f = (Inl e, s)"
| "andthen (Inr v, s) f = f v s"

text \<open>\<^verbatim>\<open>d[k]\<close> on one of the caches.\<close>

definition getitem :: "(pykey \<Rightarrow> 'a option) \<Rightarrow> json \<Rightarrow> 'a res" where
  "getitem m kv = (case key_of kv of Inl e \<Rightarrow> Inl e
                   | Inr k \<Rightarrow> (case m k of None \<Rightarrow> Inl KeyError | Some v \<Rightarrow> Inr v))"

text \<open>\<^verbatim>\<open>v[k] = x\<close> for a string \<open>k\<close>: an item assignment on a dict.\<close>

fun setitem :: "json \<Rightarrow> string \<Rightarrow> json \<Rightarrow> json res" where
  "setitem (JObj d) k x = Inr (JObj (d(k \<mapsto> x)))"
| "setitem v k x = Inl TypeError"

section \<open>Directory cache handlers\<close>

text \<open>
  \<^verbatim>\<open>on_user_change\<close>. The record is stored first; the ``old'' nick is then read back from
  the entry just written, inside \<^verbatim>\<open>try/except KeyError\<close> (any other error of that
  read propagates). Python's \<^verbatim>\<open>!=\<close> is HOL's \<open>\<noteq>\<close> here up to \<^verbatim>\<open>True == 1\<close>.
\<close>

definition read_old_nick :: "slack_ws \<Rightarrow> json \<Rightarrow> json res" where
  "read_old_nick s uid =
    (case getitem (user_map s) uid of
       Inl e \<Rightarrow> (if e = KeyError then Inr JNull else Inl e)
     | Inr r \<Rightarrow> (case subscript r ''nick'' of
                  Inl e \<Rightarrow> (if e = KeyError then Inr JNull else Inl e)
                | Inr n \<Rightarrow> Inr n))"

definition swap_nick :: "json \<Rightarrow> json \<Rightarrow> json \<Rightarrow> slack_ws \<Rightarrow> unit res \<times> slack_ws" where
  "swap_nick old_nick new_nick uid s =
    orraise (key_of old_nick) s (\<lambda>ko.
    orraise (getitem (user_nick_to_id s) old_nick) s (\<lambda>_.
    let s1 = s\<lparr>user_nick_to_id := (user_nick_to_id s)(ko := None)\<rparr> in
    orraise (key_of new_nick) s1 (\<lambda>kn.
    (Inr (), s1\<lparr>user_nick_to_id := (user_nick_to_id s1)(kn \<mapsto> uid)\<rparr>))))"

definition on_user_change :: "json \<Rightarrow> slack_ws \<Rightarrow> unit res \<times> slack_ws" where
  "on_user_change msg s =
    orraise (subscript msg ''user'') s (\<lambda>user_info.
    orraise (subscript user_info ''id'') s (\<lambda>uid.
    orraise (key_of uid) s (\<lambda>k.
    let s1 = s\<lparr>user_map := (user_map s)(k \<mapsto> user_info)\<rparr> in
    orraise (read_old_nick s1 uid) s1 (\<lambda>old_nick.
    if truthy old_nick then
      orraise (subscript user_info ''nick'') s1 (\<lambda>new_nick.
      if old_nick \<noteq> new_nick then swap_nick old_nick new_nick uid s1
      else (Inr (), s1))
    else (Inr (), s1)))))"

text \<open>
  \<^verbatim>\<open>on_presence_change\<close>: one assignment,
  \<^verbatim>\<open>self.user_map[msg['user']]['presence'] = msg['presence']\<close>. Python evaluates the
  right-hand side first, then the target's container. The record is mutated in place:
  it is the value stored under that one key of \<open>user_map\<close>.
\<close>

definition on_presence_change :: "json \<Rightarrow> slack_ws \<Rightarrow> unit res \<times> slack_ws" where
  "on_presence_change msg s =
    orraise (subscript msg ''presence'') s (\<lambda>p.
    orraise (subscript msg ''user'') s (\<lambda>uid.
    orraise (key_of uid) s (\<lambda>k.
    orraise (getitem (user_map s) uid) s (\<lambda>r.
    orraise (setitem r ''presence'' p) s (\<lambda>r'.
    (Inr (), s\<lparr>user_map := (user_map s)(k \<mapsto> r')\<rparr>))))))"

section \<open>Strings, membership, formatting\<close>

text \<open>\<^verbatim>\<open>k in v\<close> for a string \<open>k\<close>: a key of a dict, an element of a list, a substring of a str.\<close>

fun contains :: "json \<Rightarrow> string \<Rightarrow> bool res" where
  "contains (JObj d) k = Inr (d k \<noteq> None)"
| "contains (JList xs) k = Inr (JStr k \<in> set xs)"
| "contains (JStr cs) k = Inr (sublist k cs)"
| "contains v k = Inl TypeError"

text \<open>\<^verbatim>\<open>v.startswith(p)\<close> and \<^verbatim>\<open>v.replace('#', '')\<close>: methods of str only.\<close>

fun startswith :: "json \<Rightarrow> string \<Rightarrow> bool res" where
  "startswith (JStr cs) p = Inr (prefix p cs)"
| "startswith v p = Inl AttributeError"

fun replace_hash :: "json \<Rightarrow> json res" where
  "replace_hash (JStr cs) = Inr (JStr (filter (\<lambda>c. c \<noteq> CHR ''#'') cs))"
| "replace_hash v = Inl AttributeError"

text \<open>\<^verbatim>\<open>v.get(k, default)\<close>: a method of dict only.\<close>

fun dict_get :: "json \<Rightarrow> string \<Rightarrow> json \<Rightarrow> json res" where
  "dict_get (JObj d) k dflt = Inr (case d k of None \<Rightarrow> dflt | Some v \<Rightarrow> v)"
| "dict_get v k dflt = Inl AttributeError"

text \<open>\<^verbatim>\<open>cs.split(c)\<close> for a one-character separator.\<close>

fun split_on :: "char \<Rightarrow> string \<Rightarrow> string list" where
  "split_on c [] = [] # []"
| "split_on c (x # xs) =
     (if x = c then [] # split_on c xs
      else (case split_on c xs of [] \<Rightarrow> [x] # [] | w # rest \<Rightarrow> (x # w) # rest))"

section \<open>The outside world\<close>

text \<open>
  What the connector calls and cannot compute: how Python prints a value that is not a
  str (\<^verbatim>\<open>'{}'.format(v)\<close>), \<^verbatim>\<open>pprint.pformat\<close>, the decoded response of the \<open>n\<close>-th
  \<^verbatim>\<open>im.open\<close> and \<^verbatim>\<open>rtm.start\<close> requests (or the exception \<^verbatim>\<open>urlopen\<close>, \<^verbatim>\<open>decode\<close> or
  \<^verbatim>\<open>json.loads\<close> raises), the outcome of the \<open>n\<close>-th \<^verbatim>\<open>websockets.connect\<close>, and
  \<^verbatim>\<open>self.error\<close>, which \<^verbatim>\<open>read\<close> calls and the class does not define (it would come from
  the base class \<^verbatim>\<open>Connection\<close>): \<open>None\<close> when the call returns, the exception otherwise.
\<close>

record env =
  str_other :: "json \<Rightarrow> string"
  pformat :: "json \<Rightarrow> string"
  im_open :: "nat \<Rightarrow> string \<Rightarrow> json \<Rightarrow> json res"
  rtm_start :: "nat \<Rightarrow> string \<Rightarrow> json res"
  ws_connect :: "nat \<Rightarrow> json \<Rightarrow> transport res"
  self_error :: "string \<Rightarrow> py_error option"

text \<open>\<^verbatim>\<open>'{}'.format(v)\<close>: a str is printed as it is.\<close>

definition py_str :: "env \<Rightarrow> json \<Rightarrow> string" where
  "py_str env v = (case v of JStr cs \<Rightarrow> cs | _ \<Rightarrow> str_other env v)"

text \<open>What \<^verbatim>\<open>await self.ws.recv()\<close> followed by \<^verbatim>\<open>json.loads\<close> gives \<^verbatim>\<open>read\<close>.\<close>

datatype recv = Recv json | RecvClosed | RecvError py_error

section \<open>Sending\<close>

text \<open>
  \<^verbatim>\<open>_send\<close>: \<^verbatim>\<open>await self.ws.send(message)\<close>. Without a websocket the attribute lookup
  on \<^verbatim>\<open>None\<close> fails; on a closed one the library raises \<^verbatim>\<open>ConnectionClosed\<close>.
\<close>

definition send :: "json \<Rightarrow> slack_ws \<Rightarrow> unit res \<times> slack_ws" where
  "send frame s =
    (case ws s of
       None \<Rightarrow> (Inl AttributeError, s)
     | Some t \<Rightarrow> (if is_closed t then (Inl ConnectionClosed, s)
                 else (Inr (), s\<lparr>sent := sent s @ [frame]\<rparr>)))"

section \<open>DM resolver\<close>

text \<open>
  The body of \<^verbatim>\<open>get_dm_id_by_user\<close>: one \<^verbatim>\<open>im.open\<close> request. \<open>None\<close> is the bare
  \<^verbatim>\<open>return\<close> after \<^verbatim>\<open>ok\<close> was falsy, \<open>Some\<close> the \<^verbatim>\<open>return data['channel']['id']\<close>.
\<close>

definition dm_open :: "env \<Rightarrow> json \<Rightarrow> slack_ws \<Rightarrow> json option res \<times> slack_ws" where
  "dm_open env user_id s =
    (let s1 = s\<lparr>dm_calls := dm_calls s @ [user_id]\<rparr> in
     orraise (im_open env (length (dm_calls s)) (token s) user_id) s1 (\<lambda>data.
     orraise (subscript data ''ok'') s1 (\<lambda>ok.
     if \<not> truthy ok then (Inr None, logmsg ERROR ''{}'' [data] s1)
     else
       orraise (subscript data ''channel'') s1 (\<lambda>ch.
       orraise (subscript ch ''id'') s1 (\<lambda>i. (Inr (Some i), s1))))))"

text \<open>
  Modelled from the spec: the decorator \<^verbatim>\<open>memoize\<close> of \<^verbatim>\<open>warmachine/utils/decorators.py\<close>
  is not among the sources. The spec's DM resolver: if cached, return immediately;
  otherwise issue the request; on a backend-reported failure return an absent result;
  on success, cache and return the DM channel id. The cache is keyed by the user id, so
  an unhashable one is a \<^verbatim>\<open>TypeError\<close>.
\<close>

definition get_dm_id_by_user :: "env \<Rightarrow> json \<Rightarrow> slack_ws \<Rightarrow> json res \<times> slack_ws" where
  "get_dm_id_by_user env user_id s =
    orraise (key_of user_id) s (\<lambda>k.
    case dm_cache s k of
      Some c \<Rightarrow> (Inr c, s)
    | None \<Rightarrow>
        andthen (dm_open env user_id s) (\<lambda>r s1.
        case r of
          None \<Rightarrow> (Inr JNull, s1)
        | Some c \<Rightarrow> (Inr c, s1\<lparr>dm_cache := (dm_cache s1)(k \<mapsto> c)\<rparr>)))"

section \<open>say\<close>

text \<open>
  The end of \<^verbatim>\<open>say\<close>, from \<^verbatim>\<open>self._internal_msgid += 1\<close> on: take the next id, build
  the envelope, log it, write it. \<open>message\<close> is the text \<^verbatim>\<open>str(message)\<close>.
\<close>

definition envelope :: "int \<Rightarrow> json \<Rightarrow> string \<Rightarrow> json" where
  "envelope i destination message =
     JObj [''id'' \<mapsto> JNum (of_int i), ''type'' \<mapsto> JStr ''message'',
           ''channel'' \<mapsto> destination, ''text'' \<mapsto> JStr message]"

definition say_send :: "string \<Rightarrow> json \<Rightarrow> slack_ws \<Rightarrow> unit res \<times> slack_ws" where
  "say_send message destination s =
    (let s1 = s\<lparr>internal_msgid := internal_msgid s + 1\<rparr>;
         frame = envelope (internal_msgid s1) destination message
     in send frame (logmsg DEBUG ''Saying {}'' [frame] s1))"

text \<open>
  \<^verbatim>\<open>say\<close>. The two \<^verbatim>\<open>if '#' not in destination and ...\<close> tests read the same record
  \<^verbatim>\<open>self.user_map[_user]\<close>; \<^verbatim>\<open>a or b\<close> evaluates \<open>b\<close> only when \<open>a\<close> is falsy.
\<close>

definition say :: "env \<Rightarrow> string \<Rightarrow> json \<Rightarrow> slack_ws \<Rightarrow> unit res \<times> slack_ws" where
  "say env message destination s =
    orraise (if truthy destination then startswith destination ''#'' else Inr False) s (\<lambda>chan.
    if chan then
      orraise (replace_hash destination) s (\<lambda>name.
      orraise (getitem (channel_name_to_id s) name) s (\<lambda>d.
      say_send message d s))
    else
      orraise (getitem (user_nick_to_id s) destination) s (\<lambda>user.
      orraise (contains destination ''#'') s (\<lambda>hash.
      if \<not> hash then
        orraise (getitem (user_map s) user) s (\<lambda>r.
        orraise (contains r ''is_bot'') s (\<lambda>has_is_bot.
        let s1 = (if \<not> has_is_bot
                  then logmsg ERROR ''is_bot property not found for user {}'' [destination] s
                  else s) in
        orraise (subscript r ''deleted'') s1 (\<lambda>deleted.
        orraise (if truthy deleted then Inr deleted else subscript r ''is_bot'') s1 (\<lambda>flag.
        if truthy flag then (Inr (), s1)
        else andthen (get_dm_id_by_user env user s1) (\<lambda>d s2. say_send message d s2)))))
      else andthen (get_dm_id_by_user env user s) (\<lambda>d s2. say_send message d s2))))"

section \<open>Message normalization\<close>

text \<open>\<^verbatim>\<open>'#{}'.format(self.channel_map[msg['channel']]['name'])\<close>.\<close>

definition channel_display :: "env \<Rightarrow> slack_ws \<Rightarrow> json \<Rightarrow> json res" where
  "channel_display env s ch =
    (case getitem (channel_map s) ch of Inl e \<Rightarrow> Inl e
     | Inr c \<Rightarrow> (case subscript c ''name'' of Inl e \<Rightarrow> Inl e
                 | Inr n \<Rightarrow> Inr (JStr (CHR ''#'' # py_str env n))))"

text \<open>The loop of the built-in \<^verbatim>\<open>!whois\<close>: one \<^verbatim>\<open>say\<close> for each nickname.\<close>

fun whois_loop :: "env \<Rightarrow> string list \<Rightarrow> json \<Rightarrow> slack_ws \<Rightarrow> unit res \<times> slack_ws" where
  "whois_loop env [] sender s = (Inr (), s)"
| "whois_loop env (n # ns) sender s =
    orraise (getitem (user_nick_to_id s) (JStr n)) s (\<lambda>uid.
    orraise (getitem (user_map s) uid) s (\<lambda>r.
    (case say env (pformat env r) sender s of
       (Inl e, s1) \<Rightarrow> (Inl e, s1)
     | (Inr _, s1) \<Rightarrow> whois_loop env ns sender s1)))"

text \<open>
  \<^verbatim>\<open>process_message\<close> returns the normalized message, or \<^verbatim>\<open>None\<close> after a built-in
  command.
\<close>

definition process_message :: "env \<Rightarrow> json \<Rightarrow> slack_ws \<Rightarrow> json res \<times> slack_ws" where
  "process_message env msg s =
    orraise (contains msg ''text'') s (\<lambda>has_text.
    let s1 = (if \<not> has_text then logmsg ERROR ''key text not found in message: {}'' [msg] s
              else s) in
    orraise (subscript msg ''user'') s1 (\<lambda>uid.
    orraise (getitem (user_map s1) uid) s1 (\<lambda>urec.
    orraise (subscript urec ''name'') s1 (\<lambda>user_nickname.
    orraise (subscript msg ''channel'') s1 (\<lambda>ch.
    orraise (startswith ch ''D'') s1 (\<lambda>dm.
    orraise (if dm then Inr JNull else channel_display env s1 ch) s1 (\<lambda>channel.
    orraise (subscript msg ''text'') s1 (\<lambda>text.
    let retval = JObj [''sender'' \<mapsto> user_nickname, ''channel'' \<mapsto> channel,
                       ''message'' \<mapsto> text];
        sender = (if truthy channel then channel else user_nickname) in
    orraise (startswith text ''!whois'') s1 (\<lambda>whois.
    if whois then
      (case text of
         JStr cs \<Rightarrow> andthen (whois_loop env (tl (split_on CHR '' '' cs)) sender s1)
                      (\<lambda>_ s2. (Inr JNull, s2))
       | _ \<Rightarrow> (Inl AttributeError, s1))
    else
      orraise (startswith text ''!slack-lag'') s1 (\<lambda>lag.
      if lag then
        andthen (say env (py_str env (JNum (lag_in_ms s1)) @ ''ms'') sender s1)
          (\<lambda>_ s2. (Inr JNull, s2))
      else (Inr retval, s1)))))))))))"

section \<open>Heartbeat\<close>

text \<open>\<^verbatim>\<open>start_ping\<close>: \<^verbatim>\<open>asyncio.ensure_future(self.do_ping())\<close>.\<close>

definition start_ping :: "slack_ws \<Rightarrow> slack_ws" where
  "start_ping s = s\<lparr>futures := futures s @ [DoPing]\<rparr>"

text \<open>
  \<^verbatim>\<open>do_ping\<close>; \<open>now\<close> is what \<^verbatim>\<open>time.time()\<close> returns. The last line,
  \<^verbatim>\<open>self._loop.call_later(4, self.start_ping)\<close>, runs only if \<^verbatim>\<open>_send\<close> returned.
\<close>

definition ping_frame :: "int \<Rightarrow> real \<Rightarrow> json" where
  "ping_frame i now =
     JObj [''id'' \<mapsto> JNum (of_int i), ''type'' \<mapsto> JStr ''ping'',
           ''time'' \<mapsto> JNum (now * 1000)]"

definition do_ping :: "real \<Rightarrow> slack_ws \<Rightarrow> unit res \<times> slack_ws" where
  "do_ping now s =
    (let s1 = s\<lparr>internal_pingid := internal_pingid s + 1\<rparr>;
         msg = ping_frame (internal_pingid s1) now
     in andthen (send msg s1)
          (\<lambda>_ s2. (Inr (), s2\<lparr>call_later := call_later s2 @ [(4, StartPing)]\<rparr>)))"

section \<open>Event handlers\<close>

definition on_hello :: "json \<Rightarrow> slack_ws \<Rightarrow> unit res \<times> slack_ws" where
  "on_hello msg s =
    (let s1 = logmsg INFO ''Connected to Slack as {}'' [nick s] s;
         s2 = s1\<lparr>STATUS := Some CONNECTED\<rparr>
     in (Inr (), start_ping s2))"

text \<open>\<^verbatim>\<open>now - msg['time']\<close>: a number (or a bool, which is an int) can be subtracted.\<close>

fun as_number :: "json \<Rightarrow> real res" where
  "as_number (JNum r) = Inr r"
| "as_number (JBool b) = Inr (if b then 1 else 0)"
| "as_number v = Inl TypeError"

definition on_pong :: "real \<Rightarrow> json \<Rightarrow> slack_ws \<Rightarrow> unit res \<times> slack_ws" where
  "on_pong now msg s =
    orraise (subscript msg ''time'') s (\<lambda>t.
    orraise (as_number t) s (\<lambda>r.
    (Inr (), s\<lparr>lag_in_ms := now * 1000 - r\<rparr>)))"

text \<open>
  The methods named \<^verbatim>\<open>on_...\<close> that the class defines; \<^verbatim>\<open>hasattr(self, func_name)\<close> is
  true for these names (the base class, which is not among the sources, is taken to
  define none). Those after \<^verbatim>\<open>on_pong\<close> have a docstring for a body;
  \<^verbatim>\<open>on_group_join\<close> is a coroutine function whose coroutine is never awaited.
\<close>

definition handler_names :: "string list" where
  "handler_names =
    [''on_hello'', ''on_user_change'', ''on_reconnect_url'', ''on_presence_change'',
     ''on_pong'', ''on_group_join'', ''on_message_message_changed'', ''on_reaction_added'',
     ''on_user_typing'', ''on_file_shared'', ''on_file_public'', ''on_channel_joined'',
     ''on_message_channel_join'', ''on_message_group_join'', ''on_desktop_notification'']"

definition call_handler :: "real \<Rightarrow> string \<Rightarrow> json \<Rightarrow> slack_ws \<Rightarrow> unit res \<times> slack_ws" where
  "call_handler now func_name msg s =
    (if func_name = ''on_hello'' then on_hello msg s
     else if func_name = ''on_user_change'' then on_user_change msg s
     else if func_name = ''on_presence_change'' then on_presence_change msg s
     else if func_name = ''on_pong'' then on_pong now msg s
     else (Inr (), s))"

section \<open>Session bootstrap\<close>

fun for_each :: "(json \<Rightarrow> slack_ws \<Rightarrow> unit res \<times> slack_ws) \<Rightarrow> json list \<Rightarrow> slack_ws
    \<Rightarrow> unit res \<times> slack_ws" where
  "for_each body [] s = (Inr (), s)"
| "for_each body (u # us) s =
    (case body u s of
       (Inl e, s1) \<Rightarrow> (Inl e, s1)
     | (Inr _, s1) \<Rightarrow> for_each body us s1)"

text \<open>
  \<^verbatim>\<open>for u in coll: body\<close> for the bodies below, which all start with \<^verbatim>\<open>u['id']\<close>.
  A list gives its elements and a str its characters. A dict gives its keys, which are
  strings, so on a dict that is not empty the first \<^verbatim>\<open>u['id']\<close> raises \<^verbatim>\<open>TypeError\<close>
  before anything is assigned. Anything else is not iterable.
\<close>

fun for_records :: "(json \<Rightarrow> slack_ws \<Rightarrow> unit res \<times> slack_ws) \<Rightarrow> json \<Rightarrow> slack_ws
    \<Rightarrow> unit res \<times> slack_ws" where
  "for_records body (JList us) s = for_each body us s"
| "for_records body (JStr cs) s = for_each body (map (\<lambda>c. JStr [c]) cs) s"
| "for_records body (JObj d) s = (if d = Map.empty then (Inr (), s) else (Inl TypeError, s))"
| "for_records body v s = (Inl TypeError, s)"

definition map_user :: "json \<Rightarrow> slack_ws \<Rightarrow> unit res \<times> slack_ws" where
  "map_user u s =
    orraise (subscript u ''id'') s (\<lambda>i.
    orraise (key_of i) s (\<lambda>k.
    let s1 = s\<lparr>user_map := (user_map s)(k \<mapsto> u)\<rparr> in
    orraise (subscript u ''name'') s1 (\<lambda>n.
    orraise (key_of n) s1 (\<lambda>kn.
    (Inr (), s1\<lparr>user_nick_to_id := (user_nick_to_id s1)(kn \<mapsto> i)\<rparr>)))))"

definition map_im :: "json \<Rightarrow> slack_ws \<Rightarrow> unit res \<times> slack_ws" where
  "map_im i s =
    orraise (subscript i ''id'') s (\<lambda>ci.
    orraise (key_of ci) s (\<lambda>k.
    (Inr (), s\<lparr>channel_map := (channel_map s)(k \<mapsto> i)\<rparr>)))"

definition map_channel :: "json \<Rightarrow> slack_ws \<Rightarrow> unit res \<times> slack_ws" where
  "map_channel c s =
    orraise (subscript c ''id'') s (\<lambda>ci.
    orraise (key_of ci) s (\<lambda>k.
    let s1 = s\<lparr>channel_map := (channel_map s)(k \<mapsto> c)\<rparr> in
    orraise (subscript c ''name'') s1 (\<lambda>n.
    orraise (key_of n) s1 (\<lambda>kn.
    (Inr (), s1\<lparr>channel_name_to_id := (channel_name_to_id s1)(kn \<mapsto> ci)\<rparr>)))))"

text \<open>
  The \<^verbatim>\<open>try\<close> block of \<^verbatim>\<open>process_connect_info\<close>: only a \<^verbatim>\<open>KeyError\<close> is caught.
\<close>

definition read_self :: "slack_ws \<Rightarrow> unit res \<times> slack_ws" where
  "read_self s =
    (case subscript (info s) ''self'' of
       Inl e \<Rightarrow> (if e = KeyError
                 then (Inr (), logmsg ERROR ''Unable to read self section of connect info'' [] s)
                 else (Inl e, s))
     | Inr sec \<Rightarrow>
         orraise (dict_get sec ''id'' (JStr ''000'')) s (\<lambda>i.
         let s1 = s\<lparr>my_id := i\<rparr> in
         orraise (dict_get sec ''name'' JNull) s1 (\<lambda>n.
         (Inr (), s1\<lparr>nick := n\<rparr>))))"

definition process_connect_info :: "json \<Rightarrow> slack_ws \<Rightarrow> unit res \<times> slack_ws" where
  "process_connect_info cinfo s =
    (if \<not> truthy cinfo then (Inr (), s)
     else
       andthen (read_self s) (\<lambda>_ s1.
       orraise (dict_get (info s1) ''users'' (JList [])) s1 (\<lambda>users.
       andthen (for_records map_user users s1) (\<lambda>_ s2.
       orraise (dict_get (info s2) ''ims'' (JList [])) s2 (\<lambda>ims.
       andthen (for_records map_im ims s2) (\<lambda>_ s3.
       orraise (dict_get (info s3) ''channels'' (JList [])) s3 (\<lambda>channels.
       andthen (for_records map_channel channels s3) (\<lambda>_ s4.
       orraise (dict_get (info s4) ''groups'' (JList [])) s4 (\<lambda>groups.
       for_records map_channel groups s4)))))))))"

section \<open>Authentication and connection\<close>

text \<open>
  \<^verbatim>\<open>authenticate\<close>: the \<^verbatim>\<open>rtm.start\<close> request, then the \<^verbatim>\<open>ok\<close> test, then the
  bootstrap, then the url.
\<close>

definition authenticate :: "env \<Rightarrow> slack_ws \<Rightarrow> json res \<times> slack_ws" where
  "authenticate env s =
    (let s1 = (logmsg DEBUG ''Connecting to {}'' [] s)\<lparr>auth_calls := auth_calls s + 1\<rparr> in
     orraise (rtm_start env (auth_calls s) (token s)) s1 (\<lambda>r.
     let s2 = s1\<lparr>info := r\<rparr> in
     orraise (dict_get (info s2) ''ok'' (JBool True)) s2 (\<lambda>ok.
     if \<not> truthy ok then
       orraise (dict_get (info s2) ''error'' (JStr ''Unknown Error'')) s2 (\<lambda>err.
       (Inl (PyException (''Slack Error: '' @ py_str env err)), s2))
     else
       andthen (process_connect_info (info s2) s2) (\<lambda>_ s3.
       orraise (dict_get (info s3) ''url'' JNull) s3 (\<lambda>u.
       (Inr u, logmsg DEBUG ''Got websocket url: {}'' [u] s3))))))"

text \<open>
  \<^verbatim>\<open>connect\<close> returns \<^verbatim>\<open>True\<close>, or \<^verbatim>\<open>None\<close> (falsy) when \<^verbatim>\<open>authenticate\<close> raised
  anything. \<^verbatim>\<open>websockets.connect\<close> is outside the \<^verbatim>\<open>try\<close>.
\<close>

definition connect :: "env \<Rightarrow> slack_ws \<Rightarrow> bool res \<times> slack_ws" where
  "connect env s =
    (case authenticate env s of
       (Inl e, s1) \<Rightarrow> (Inr False, logmsg ERROR ''Error authenticating to slack'' [] s1)
     | (Inr h, s1) \<Rightarrow>
         (let s2 = s1\<lparr>host := h\<rparr>;
              s3 = s2\<lparr>STATUS := Some CONNECTING\<rparr>;
              s4 = logmsg INFO ''Connecting to {}'' [h] s3
          in orraise (ws_connect env (auth_calls s) h) s4 (\<lambda>t.
             (Inr True, s4\<lparr>ws := Some t\<rparr>))))"

section \<open>read\<close>

text \<open>
  The loop \<^verbatim>\<open>while not await self.connect(): self.error(...); await asyncio.sleep(300)\<close>.
  It has no bound in the code; here it runs at most \<open>fuel\<close> rounds and \<open>None\<close> says that
  it is still looping after them.
\<close>

fun reconnect_loop :: "env \<Rightarrow> nat \<Rightarrow> slack_ws \<Rightarrow> (unit res \<times> slack_ws) option" where
  "reconnect_loop env 0 s = None"
| "reconnect_loop env (Suc fuel) s =
    (case connect env s of
       (Inl e, s1) \<Rightarrow> Some (Inl e, s1)
     | (Inr ok, s1) \<Rightarrow>
         (if ok then Some (Inr (), s1)
          else (case self_error env ''Trying to reconnect...'' of
                  Some e \<Rightarrow> Some (Inl e, s1)
                | None \<Rightarrow> reconnect_loop env fuel (s1\<lparr>sleeps := sleeps s1 @ [300]\<rparr>))))"

text \<open>
  The part of \<^verbatim>\<open>read\<close> after a message was received and decoded. The result is what
  \<^verbatim>\<open>read\<close> returns: \<^verbatim>\<open>None\<close>, or what \<^verbatim>\<open>process_message\<close> returns.
\<close>

definition func_name_of :: "env \<Rightarrow> json \<Rightarrow> bool \<Rightarrow> string res" where
  "func_name_of env message has_sub =
    (case subscript message ''type'' of Inl e \<Rightarrow> Inl e
     | Inr ty \<Rightarrow>
        (if has_sub then
           (case subscript message ''subtype'' of Inl e \<Rightarrow> Inl e
            | Inr st \<Rightarrow> Inr (''on_'' @ py_str env ty @ ''_'' @ py_str env st))
         else Inr (''on_'' @ py_str env ty)))"

definition read_message :: "env \<Rightarrow> real \<Rightarrow> json \<Rightarrow> slack_ws \<Rightarrow> json res \<times> slack_ws" where
  "read_message env now message s =
    orraise (contains message ''reply_to'') s (\<lambda>has_reply.
    orraise (contains message ''type'') s (\<lambda>has_type.
    if has_reply \<and> \<not> has_type then (Inr JNull, s)
    else if \<not> has_type then
      (Inr JNull, logmsg ERROR ''Received typeless message: {}'' [message] s)
    else
      orraise (subscript message ''type'') s (\<lambda>ty.
      orraise (contains message ''subtype'') s (\<lambda>has_sub.
      if ty = JStr ''message'' \<and> \<not> has_sub then process_message env message s
      else
        orraise (func_name_of env message has_sub) s (\<lambda>func_name.
        if func_name \<in> set handler_names then
          andthen (call_handler now func_name message s) (\<lambda>_ s1. (Inr JNull, s1))
        else (Inr JNull, logmsg DEBUG ''{} does not exist for message: {}''
                           [JStr func_name, message] s))))))"

text \<open>
  \<^verbatim>\<open>read\<close>; \<open>ev\<close> is what receiving gave. Without a websocket it returns at once.
\<close>

definition read :: "env \<Rightarrow> nat \<Rightarrow> real \<Rightarrow> recv \<Rightarrow> slack_ws \<Rightarrow> (json res \<times> slack_ws) option" where
  "read env fuel now ev s =
    (case ws s of
       None \<Rightarrow> Some (Inr JNull, s)
     | Some t \<Rightarrow>
        (case ev of
           RecvClosed \<Rightarrow>
             (case reconnect_loop env fuel (logmsg ERROR ''{}'' [] s) of
                None \<Rightarrow> None
              | Some (Inl e, s1) \<Rightarrow> Some (Inl e, s1)
              | Some (Inr _, s1) \<Rightarrow> Some (Inr JNull, s1))
         | RecvError e \<Rightarrow> Some (Inl e, s)
         | Recv message \<Rightarrow> Some (read_message env now message s)))"

section \<open>Directory lookups and the life of a connector\<close>

text \<open>The lookup \<^verbatim>\<open>self.user_nick_to_id[name]\<close>, as \<^verbatim>\<open>say\<close> and \<^verbatim>\<open>!whois\<close> do it.\<close>

definition user_id_for_name :: "slack_ws \<Rightarrow> json \<Rightarrow> json res" where
  "user_id_for_name s name = getitem (user_nick_to_id s) name"

text \<open>
  What can happen to a connector object during the life of the process: the framework
  calls \<^verbatim>\<open>connect\<close>, \<^verbatim>\<open>read\<close> and \<^verbatim>\<open>say\<close>, and the event loop runs \<^verbatim>\<open>do_ping\<close>.
  An exception ends the call, not the object: the state it leaves is the state the
  next call sees.
\<close>

datatype action = Connect | Read real recv | Say string json | Ping real

fun exec :: "env \<Rightarrow> nat \<Rightarrow> action \<Rightarrow> slack_ws \<Rightarrow> slack_ws option" where
  "exec env fuel Connect s = Some (snd (connect env s))"
| "exec env fuel (Read now ev) s = map_option snd (read env fuel now ev s)"
| "exec env fuel (Say message destination) s = Some (snd (say env message destination s))"
| "exec env fuel (Ping now) s = Some (snd (do_ping now s))"

fun run :: "env \<Rightarrow> nat \<Rightarrow> action list \<Rightarrow> slack_ws \<Rightarrow> slack_ws option" where
  "run env fuel [] s = Some s"
| "run env fuel (a # as) s =
    (case exec env fuel a s of None \<Rightarrow> None | Some s1 \<Rightarrow> run env fuel as s1)"

text \<open>The sequence ids of the outbound message envelopes among the frames written.\<close>

fun frame_id :: "json \<Rightarrow> real option" where
  "frame_id (JObj d) =
    (if d ''type'' = Some (JStr ''message'')
     then (case d ''id'' of Some (JNum r) \<Rightarrow> Some r | _ \<Rightarrow> None)
     else None)"
| "frame_id v = None"

definition message_ids :: "json list \<Rightarrow> real list" where
  "message_ids frames = List.map_filter frame_id frames"


text \<open>What the event loop does with a callback when its delay has passed.\<close>

fun fire :: "callback \<Rightarrow> slack_ws \<Rightarrow> slack_ws" where
  "fire StartPing s = start_ping s"

section \<open>A small workspace\<close>

text \<open>
  Concrete data on which the theorems below are instantiated: a person, a bot, a bot
  whose name has a \<^verbatim>\<open>#\<close> inside, a deleted account whose record has no \<^verbatim>\<open>is_bot\<close>,
  a bot whose record has no \<^verbatim>\<open>deleted\<close>, one channel, an open websocket.
\<close>

definition alice :: json where
  "alice = JObj [''id'' \<mapsto> JStr ''U1'', ''name'' \<mapsto> JStr ''alice'',
                 ''is_bot'' \<mapsto> JBool False, ''deleted'' \<mapsto> JBool False]"

definition robot :: json where
  "robot = JObj [''id'' \<mapsto> JStr ''U2'', ''name'' \<mapsto> JStr ''robot'',
                 ''is_bot'' \<mapsto> JBool True, ''deleted'' \<mapsto> JBool False]"

definition hashbot :: json where
  "hashbot = JObj [''id'' \<mapsto> JStr ''U3'', ''name'' \<mapsto> JStr ''ro#bot'',
                   ''is_bot'' \<mapsto> JBool True, ''deleted'' \<mapsto> JBool True]"

definition ghost :: json where
  "ghost = JObj [''id'' \<mapsto> JStr ''U4'', ''name'' \<mapsto> JStr ''ghost'',
                 ''deleted'' \<mapsto> JBool True]"

definition barebot :: json where
  "barebot = JObj [''id'' \<mapsto> JStr ''U5'', ''name'' \<mapsto> JStr ''barebot'',
                   ''is_bot'' \<mapsto> JBool True]"

definition general :: json where
  "general = JObj [''id'' \<mapsto> JStr ''C1'', ''name'' \<mapsto> JStr ''general'']"

definition live :: transport where
  "live = \<lparr>url = JStr ''wss://example/1'', is_closed = False\<rparr>"

definition demo :: slack_ws where
  "demo = (init ''xoxb'')\<lparr>
     channel_map := [KStr ''C1'' \<mapsto> general],
     channel_name_to_id := [KStr ''general'' \<mapsto> JStr ''C1''],
     user_map := [KStr ''U1'' \<mapsto> alice, KStr ''U2'' \<mapsto> robot, KStr ''U3'' \<mapsto> hashbot,
                  KStr ''U4'' \<mapsto> ghost, KStr ''U5'' \<mapsto> barebot],
     user_nick_to_id := [KStr ''alice'' \<mapsto> JStr ''U1'', KStr ''robot'' \<mapsto> JStr ''U2'',
                         KStr ''ro#bot'' \<mapsto> JStr ''U3'', KStr ''ghost'' \<mapsto> JStr ''U4'',
                         KStr ''barebot'' \<mapsto> JStr ''U5''],
     ws := Some live\<rparr>"

text \<open>
  A backend whose first \<^verbatim>\<open>rtm.start\<close> request fails in transit, whose second is
  refused, and whose later ones succeed; \<^verbatim>\<open>im.open\<close> always opens channel \<^verbatim>\<open>D9\<close>.
\<close>

definition rtm_ok :: json where
  "rtm_ok = JObj [''ok'' \<mapsto> JBool True, ''url'' \<mapsto> JStr ''wss://example/2'',
                  ''self'' \<mapsto> JObj [''id'' \<mapsto> JStr ''B1'', ''name'' \<mapsto> JStr ''warmachine''],
                  ''users'' \<mapsto> JList [alice]]"

definition rtm_refused :: json where
  "rtm_refused = JObj [''ok'' \<mapsto> JBool False, ''error'' \<mapsto> JStr ''invalid_auth'']"

definition demo_env :: env where
  "demo_env = \<lparr>
     str_other = (\<lambda>v. ''?''),
     pformat = (\<lambda>v. ''?''),
     im_open = (\<lambda>n tok u. Inr (JObj [''ok'' \<mapsto> JBool True,
                                       ''channel'' \<mapsto> JObj [''id'' \<mapsto> JStr ''D9'']])),
     rtm_start = (\<lambda>n tok. if n = 0 then Inl URLError
                           else if n = 1 then Inr rtm_refused else Inr rtm_ok),
     ws_connect = (\<lambda>n h. Inr \<lparr>url = h, is_closed = False\<rparr>),
     self_error = (\<lambda>m. None)\<rparr>"


text \<open>Events: alice renames herself; alice goes away; a user nobody has seen goes away.\<close>

definition rename_alice :: json where
  "rename_alice = JObj [''type'' \<mapsto> JStr ''user_change'',
     ''user'' \<mapsto> JObj [''id'' \<mapsto> JStr ''U1'', ''name'' \<mapsto> JStr ''alicia'',
                          ''is_bot'' \<mapsto> JBool False, ''deleted'' \<mapsto> JBool False]]"

definition away_alice :: json where
  "away_alice = JObj [''type'' \<mapsto> JStr ''presence_change'', ''user'' \<mapsto> JStr ''U1'',
                      ''presence'' \<mapsto> JStr ''away'']"

definition away_stranger :: json where
  "away_stranger = JObj [''type'' \<mapsto> JStr ''presence_change'', ''user'' \<mapsto> JStr ''U404'',
                         ''presence'' \<mapsto> JStr ''away'']"


definition typeless :: json where
  "typeless = JObj [''text'' \<mapsto> JStr ''hi'']"




text \<open>A refusal that gives no reason.\<close>

definition rtm_silent :: json where
  "rtm_silent = JObj [''ok'' \<mapsto> JBool False]"

text \<open>The connector after its peer has closed the websocket.\<close>

definition dropped :: slack_ws where
  "dropped = demo\<lparr>ws := Some (live\<lparr>is_closed := True\<rparr>), STATUS := Some CONNECTED\<rparr>"

text \<open>
  A stretch of a connector's life: two messages to a person, one to a bot, a closed
  websocket, a heartbeat, a message to a channel.
\<close>

definition chatter :: "action list" where
  "chatter = [Say ''one'' (JStr ''alice''), Say ''two'' (JStr ''alice''),
              Say ''zero'' (JStr ''robot''), Read 0 RecvClosed, Ping 5,
              Say ''three'' (JStr ''#general'')]"



section \<open>Relations between states\<close>

text \<open>
  \<open>unch s s'\<close>: the step from \<open>s\<close> to \<open>s'\<close> touched neither the counter of \<^verbatim>\<open>say\<close>, nor
  what was written, nor the DM cache, nor the websocket, nor the bootstrap payload.
\<close>

definition unch :: "slack_ws \<Rightarrow> slack_ws \<Rightarrow> bool" where
  "unch s s' \<longleftrightarrow>
     internal_msgid s' = internal_msgid s \<and> sent s' = sent s \<and> dm_cache s' = dm_cache s \<and>
     sleeps s' = sleeps s \<and> token s' = token s \<and> auth_calls s' = auth_calls s \<and>
     ws s' = ws s \<and> info s' = info s"

text \<open>
  \<open>grows s s'\<close>: the message counter did not go down, nothing left the DM cache, and the
  frames written since \<open>s\<close> carry increasing message ids, all above the counter of \<open>s\<close>
  and none above the counter of \<open>s'\<close>.
\<close>

definition grows :: "slack_ws \<Rightarrow> slack_ws \<Rightarrow> bool" where
  "grows s s' \<longleftrightarrow>
     internal_msgid s \<le> internal_msgid s' \<and> dm_cache s \<subseteq>\<^sub>m dm_cache s' \<and>
     (\<exists>new. sent s' = sent s @ new \<and> sorted_wrt (<) (message_ids new) \<and>
        (\<forall>r\<in>set (message_ids new).
           real_of_int (internal_msgid s) < r \<and> r \<le> real_of_int (internal_msgid s')))"

text \<open>
  \<open>one_send s s'\<close>: from \<open>s\<close> to \<open>s'\<close> at most one message id was taken, and if a frame was
  written it is one message envelope carrying that id.
\<close>

definition one_send :: "slack_ws \<Rightarrow> slack_ws \<Rightarrow> bool" where
  "one_send s s' \<longleftrightarrow>
     (sent s' = sent s \<and>
        (internal_msgid s' = internal_msgid s \<or> internal_msgid s' = internal_msgid s + 1)) \<or>
     (internal_msgid s' = internal_msgid s + 1 \<and>
        message_ids (sent s') = message_ids (sent s) @ [of_int (internal_msgid s + 1)])"

text \<open>
  \<open>ids_ok s\<close>: the message ids written so far are strictly increasing and none is above
  the counter. It holds of a new connector, which has written nothing.
\<close>

definition ids_ok :: "slack_ws \<Rightarrow> bool" where
  "ids_ok s \<longleftrightarrow> sorted_wrt (<) (message_ids (sent s)) \<and>
     list_all (\<lambda>r. r \<le> real_of_int (internal_msgid s)) (message_ids (sent s))"

section \<open>Propagation of errors\<close>

lemma orraise_split:
  "P (orraise r s f) =
    ((\<forall>e. r = Inl e \<longrightarrow> P (Inl e, s)) \<and> (\<forall>v. r = Inr v \<longrightarrow> P (f v)))"
  by (cases r) auto

lemma orraise_split_asm:
  "P (orraise r s f) =
    (\<not> ((\<exists>e. r = Inl e \<and> \<not> P (Inl e, s)) \<or> (\<exists>v. r = Inr v \<and> \<not> P (f v))))"
  by (cases r) auto

lemmas orraise_splits = orraise_split orraise_split_asm

lemma andthen_split:
  "P (andthen m f) =
    ((\<forall>e s'. m = (Inl e, s') \<longrightarrow> P (Inl e, s')) \<and> (\<forall>v s'. m = (Inr v, s') \<longrightarrow> P (f v s')))"
  by (cases "(m, f)" rule: andthen.cases) auto

lemma andthen_split_asm:
  "P (andthen m f) =
    (\<not> ((\<exists>e s'. m = (Inl e, s') \<and> \<not> P (Inl e, s')) \<or>
         (\<exists>v s'. m = (Inr v, s') \<and> \<not> P (f v s'))))"
  by (cases "(m, f)" rule: andthen.cases) auto

lemmas andthen_splits = andthen_split andthen_split_asm

lemma subscript_Inr: "subscript v k = Inr x \<Longrightarrow> \<exists>d. v = JObj d \<and> d k = Some x"
  by (cases v) (auto split: option.splits)

lemma sublist_single: "sublist [c] xs = (c \<in> set xs)"
  by (auto simp: sublist_def in_set_conv_decomp)

section \<open>What each method leaves alone\<close>

lemma unch_refl [simp]: "unch s s" by (simp add: unch_def)
lemma unch_trans: "unch s s1 \<Longrightarrow> unch s1 s2 \<Longrightarrow> unch s s2" by (simp add: unch_def)
lemma unch_logmsg [simp]: "unch s (logmsg l f a s')  = unch s s'" by (simp add: unch_def logmsg_def)

lemma unch_on_user_change: "unch s (snd (on_user_change msg s))"
  unfolding on_user_change_def swap_nick_def
  by (auto simp: Let_def unch_def split: orraise_splits)

lemma unch_on_presence_change: "unch s (snd (on_presence_change msg s))"
  unfolding on_presence_change_def
  by (auto simp: Let_def unch_def split: orraise_splits)

lemma unch_on_hello: "unch s (snd (on_hello msg s))"
  by (simp add: on_hello_def Let_def unch_def start_ping_def logmsg_def)

lemma unch_on_pong: "unch s (snd (on_pong now msg s))"
  unfolding on_pong_def
  by (auto simp: Let_def unch_def split: orraise_splits)

lemma unch_call_handler: "unch s (snd (call_handler now fn msg s))"
  by (simp add: call_handler_def unch_on_hello unch_on_pong unch_on_presence_change unch_on_user_change)

lemma unch_map_user: "unch s (snd (map_user u s))"
  unfolding map_user_def by (auto simp: Let_def unch_def split: orraise_splits)
lemma unch_map_im: "unch s (snd (map_im u s))"
  unfolding map_im_def by (auto simp: Let_def unch_def split: orraise_splits)
lemma unch_map_channel: "unch s (snd (map_channel u s))"
  unfolding map_channel_def by (auto simp: Let_def unch_def split: orraise_splits)

lemma unch_for_each:
  assumes "\<And>u s. unch s (snd (body u s))"
  shows "unch s (snd (for_each body us s))"
proof (induction us arbitrary: s)
  case Nil show ?case by simp
next
  case (Cons u us)
  show ?case
  proof (cases "body u s")
    case (Pair r s1)
    with assms[of s u] have 1: "unch s s1" by simp
    show ?thesis
    proof (cases r)
      case (Inl e) with Pair 1 show ?thesis by simp
    next
      case (Inr v) with Pair 1 Cons.IH[of s1] show ?thesis by (auto intro: unch_trans)
    qed
  qed
qed

lemma unch_for_records:
  assumes "\<And>u s. unch s (snd (body u s))"
  shows "unch s (snd (for_records body coll s))"
  by (cases coll) (simp_all add: unch_for_each[OF assms])

lemma unch_read_self: "unch s (snd (read_self s))"
  unfolding read_self_def by (auto simp: Let_def unch_def logmsg_def split: orraise_splits sum.splits)


lemma orraise_snd: "P s \<Longrightarrow> (\<And>v. r = Inr v \<Longrightarrow> P (snd (f v))) \<Longrightarrow> P (snd (orraise r s f))"
  by (cases r) auto

lemma andthen_snd:
  "P (snd m) \<Longrightarrow> (\<And>v s1. P s1 \<Longrightarrow> P (snd (f v s1))) \<Longrightarrow> P (snd (andthen m f))"
  by (cases "(m, f)" rule: andthen.cases) auto

lemmas unch_orraise = orraise_snd[where P = "unch s0" for s0]
lemmas unch_andthen = andthen_snd[where P = "unch s0" for s0]

lemma unch_process_connect_info:
  assumes "unch s0 s" shows "unch s0 (snd (process_connect_info cinfo s))"
proof -
  have rs: "\<And>s. unch s0 s \<Longrightarrow> unch s0 (snd (read_self s))"
    using unch_read_self unch_trans by blast
  have u: "\<And>c s. unch s0 s \<Longrightarrow> unch s0 (snd (for_records map_user c s))"
    using unch_for_records[of map_user, OF unch_map_user] unch_trans by blast
  have i: "\<And>c s. unch s0 s \<Longrightarrow> unch s0 (snd (for_records map_im c s))"
    using unch_for_records[of map_im, OF unch_map_im] unch_trans by blast
  have c: "\<And>c s. unch s0 s \<Longrightarrow> unch s0 (snd (for_records map_channel c s))"
    using unch_for_records[of map_channel, OF unch_map_channel] unch_trans by blast
  show ?thesis
    unfolding process_connect_info_def using assms
    by (auto intro!: unch_orraise unch_andthen rs u i c)
qed

lemma unch_upd [simp]:
  "unch s0 (s\<lparr>logged := b\<rparr>) = unch s0 s"
  "unch s0 (s\<lparr>host := c\<rparr>) = unch s0 s"
  "unch s0 (s\<lparr>STATUS := d\<rparr>) = unch s0 s"
  by (simp_all add: unch_def)

lemma authenticate_frame:
  "\<exists>i. unch (s\<lparr>auth_calls := auth_calls s + 1, info := i\<rparr>) (snd (authenticate env s))"
proof (cases "rtm_start env (auth_calls s) (token s)")
  case (Inl e)
  then have "unch (s\<lparr>auth_calls := auth_calls s + 1, info := info s\<rparr>) (snd (authenticate env s))"
    by (simp add: authenticate_def Let_def unch_def logmsg_def)
  then show ?thesis ..
next
  case (Inr r)
  let ?s2 = "(logmsg DEBUG ''Connecting to {}'' [] s)\<lparr>auth_calls := auth_calls s + 1, info := r\<rparr>"
  have 0: "unch (s\<lparr>auth_calls := auth_calls s + 1, info := r\<rparr>) ?s2"
    by (simp add: unch_def logmsg_def)
  have "unch (s\<lparr>auth_calls := auth_calls s + 1, info := r\<rparr>) (snd (authenticate env s))"
    unfolding authenticate_def Let_def using 0 Inr
    by (auto intro!: unch_orraise unch_andthen unch_process_connect_info)
  then show ?thesis ..
qed

lemma connect_frame:
  "\<exists>i. unch (s\<lparr>auth_calls := auth_calls s + 1, ws := ws (snd (connect env s)), info := i\<rparr>)
         (snd (connect env s))"
proof (cases "authenticate env s")
  case (Pair r s1)
  with authenticate_frame[where s=s and env=env]
  obtain i where 1: "unch (s\<lparr>auth_calls := auth_calls s + 1, info := i\<rparr>) s1" by auto
  have "unch (s\<lparr>auth_calls := auth_calls s + 1, ws := ws (snd (connect env s)), info := i\<rparr>)
         (snd (connect env s))"
  proof (cases r)
    case (Inl e) with Pair 1 show ?thesis by (simp add: connect_def unch_def logmsg_def)
  next
    case (Inr h) with Pair 1 show ?thesis
      by (cases "ws_connect env (auth_calls s) h")
         (simp_all add: connect_def unch_def logmsg_def Let_def)
  qed
  then show ?thesis ..
qed

lemma connect_False_ws:
  assumes "fst (connect env s) = Inr False" shows "ws (snd (connect env s)) = ws s"
proof (cases "authenticate env s")
  case (Pair r s1)
  with authenticate_frame[where s=s and env=env] have 1: "ws s1 = ws s" by (auto simp: unch_def)
  show ?thesis
  proof (cases r)
    case (Inl e) with Pair 1 show ?thesis by (simp add: connect_def logmsg_def)
  next
    case (Inr h) with Pair assms show ?thesis
      by (cases "ws_connect env (auth_calls s) h") (simp_all add: connect_def Let_def)
  qed
qed






lemma message_ids_append: "message_ids (a @ b) = message_ids a @ message_ids b"
  by (simp add: message_ids_def List.map_filter_def)

lemma message_ids_Nil [simp]: "message_ids [] = []"
  by (simp add: message_ids_def map_filter_simps)

lemma grows_refl [simp]: "grows s s"
  by (simp add: grows_def)

lemma unch_grows: "unch s s' \<Longrightarrow> grows s s'"
  by (simp add: grows_def unch_def)

lemma grows_trans:
  assumes "grows s s1" "grows s1 s2" shows "grows s s2"
proof -
  from assms(1) obtain n1 where 1: "sent s1 = sent s @ n1" "sorted_wrt (<) (message_ids n1)"
    "\<forall>r\<in>set (message_ids n1). real_of_int (internal_msgid s) < r \<and> r \<le> real_of_int (internal_msgid s1)"
    and m1: "internal_msgid s \<le> internal_msgid s1" and d1: "dm_cache s \<subseteq>\<^sub>m dm_cache s1"
    unfolding grows_def by blast
  from assms(2) obtain n2 where 2: "sent s2 = sent s1 @ n2" "sorted_wrt (<) (message_ids n2)"
    "\<forall>r\<in>set (message_ids n2). real_of_int (internal_msgid s1) < r \<and> r \<le> real_of_int (internal_msgid s2)"
    and m2: "internal_msgid s1 \<le> internal_msgid s2" and d2: "dm_cache s1 \<subseteq>\<^sub>m dm_cache s2"
    unfolding grows_def by blast
  have a: "sent s2 = sent s @ (n1 @ n2)" using 1(1) 2(1) by simp
  have b: "sorted_wrt (<) (message_ids (n1 @ n2))"
    using 1(2,3) 2(2,3) by (fastforce simp: message_ids_append sorted_wrt_append)
  have c: "\<forall>r\<in>set (message_ids (n1 @ n2)). real_of_int (internal_msgid s) < r \<and> r \<le> real_of_int (internal_msgid s2)"
    using 1(3) 2(3) m1 m2 by (fastforce simp: message_ids_append)
  from d1 d2 have d: "dm_cache s \<subseteq>\<^sub>m dm_cache s2" by (rule map_le_trans)
  from a b c d m1 m2 show ?thesis unfolding grows_def by (intro conjI exI[of _ "n1 @ n2"]) auto
qed

lemma grows_upd [simp]:
  "grows s0 (s\<lparr>logged := b\<rparr>) = grows s0 s"
  "grows s0 (s\<lparr>dm_calls := c\<rparr>) = grows s0 s"
  by (simp_all add: grows_def)

lemma grows_logmsg [simp]: "grows s0 (logmsg l f a s) = grows s0 s"
  by (simp add: logmsg_def)

lemmas grows_orraise = orraise_snd[where P = "grows s0" for s0]
lemmas grows_andthen = andthen_snd[where P = "grows s0" for s0]

lemma grows_dm_open: "grows s0 s \<Longrightarrow> grows s0 (snd (dm_open env u s))"
  unfolding dm_open_def Let_def
  by (auto intro!: grows_orraise)

lemma dm_open_cache: "dm_cache (snd (dm_open env u s)) = dm_cache s"
  unfolding dm_open_def Let_def
  by (auto split: orraise_splits simp: logmsg_def)

lemma grows_get_dm: 
  assumes "grows s0 s" shows "grows s0 (snd (get_dm_id_by_user env u s))"
proof (cases "key_of u")
  case (Inl e) with assms show ?thesis by (simp add: get_dm_id_by_user_def)
next
  case (Inr k)
  show ?thesis
  proof (cases "dm_cache s k")
    case (Some c) with Inr assms show ?thesis by (simp add: get_dm_id_by_user_def)
  next
    case None
    obtain r s1 where o: "dm_open env u s = (r, s1)" by (cases "dm_open env u s")
    with grows_dm_open[OF assms, of env u] have g: "grows s0 s1" by simp
    from o dm_open_cache[of env u s] None have n: "dm_cache s1 k = None" by simp
    have "grows s1 (s1\<lparr>dm_cache := (dm_cache s1)(k \<mapsto> c)\<rparr>)" for c
      using n by (auto simp: grows_def map_le_def)
    with g have "grows s0 (s1\<lparr>dm_cache := (dm_cache s1)(k \<mapsto> c)\<rparr>)" for c
      using grows_trans by blast
    with g o Inr None show ?thesis
      by (cases r) (auto simp: get_dm_id_by_user_def split: option.splits)
  qed
qed

lemma grows_say_send:
  assumes "grows s0 s" shows "grows s0 (snd (say_send m d s))"
proof -
  let ?f = "envelope (internal_msgid s + 1) d m"
  have ids: "message_ids [?f] = [of_int (internal_msgid s + 1)]"
    by (simp add: message_ids_def map_filter_simps envelope_def)
  have 1: "grows s (s\<lparr>internal_msgid := internal_msgid s + 1\<rparr>)"
    by (simp add: grows_def)
  have 2: "grows s (s\<lparr>internal_msgid := internal_msgid s + 1, sent := sent s @ [?f]\<rparr>)"
    unfolding grows_def using ids by (auto intro!: exI[of _ "[?f]"])
  have "grows s (snd (say_send m d s))"
    using 1 2 by (auto simp: say_send_def Let_def send_def logmsg_def grows_def split: option.splits)
  with assms show ?thesis by (rule grows_trans)
qed

lemma grows_say: "grows s0 s \<Longrightarrow> grows s0 (snd (say env m d s))"
  unfolding say_def Let_def
  by (auto intro!: grows_orraise grows_andthen grows_say_send grows_get_dm)


lemma grows_whois_loop: "grows s0 s \<Longrightarrow> grows s0 (snd (whois_loop env ns sender s))"
proof (induction ns arbitrary: s)
  case Nil then show ?case by simp
next
  case (Cons n ns)
  show ?case
  proof (cases "getitem (user_nick_to_id s) (JStr n)")
    case (Inl e) with Cons.prems show ?thesis by simp
  next
    case uid: (Inr uid)
    show ?thesis
    proof (cases "getitem (user_map s) uid")
      case (Inl e) with uid Cons.prems show ?thesis by simp
    next
      case (Inr r)
      obtain res s1 where o: "say env (pformat env r) sender s = (res, s1)"
        by (cases "say env (pformat env r) sender s")
      with grows_say[OF Cons.prems, of env "pformat env r" sender] have g: "grows s0 s1" by simp
      from uid Inr o g Cons.IH[OF g] show ?thesis by (cases res) auto
    qed
  qed
qed

lemma grows_process_message: "grows s0 s \<Longrightarrow> grows s0 (snd (process_message env msg s))"
  unfolding process_message_def Let_def
  by (auto intro!: grows_orraise grows_andthen grows_say grows_whois_loop split: json.splits)

lemma grows_call_handler: "grows s0 s \<Longrightarrow> grows s0 (snd (call_handler now fn msg s))"
  using unch_call_handler[of s now fn msg] unch_grows grows_trans by blast

lemma grows_read_message: "grows s0 s \<Longrightarrow> grows s0 (snd (read_message env now msg s))"
  unfolding read_message_def
  by (auto intro!: grows_orraise grows_andthen grows_process_message grows_call_handler)

lemma grows_connect: "grows s (snd (connect env s))"
  using connect_frame[where s=s and env=env] by (auto simp: grows_def unch_def)

lemma grows_reconnect_loop:
  "reconnect_loop env fuel s = Some (r, s') \<Longrightarrow> grows s s'"
proof (induction fuel arbitrary: s)
  case 0 then show ?case by simp
next
  case (Suc fuel)
  obtain res s1 where c: "connect env s = (res, s1)" by (cases "connect env s")
  with grows_connect[of s env] have g: "grows s s1" by simp
  let ?s2 = "s1\<lparr>sleeps := sleeps s1 @ [300]\<rparr>"
  have g2: "grows s ?s2" using g by (simp add: grows_def)
  show ?case
  proof (cases res)
    case (Inl e) with c g Suc.prems show ?thesis by auto
  next
    case (Inr ok)
    show ?thesis
    proof (cases ok)
      case True with Inr c g Suc.prems show ?thesis by auto
    next
      case False
      show ?thesis
      proof (cases "self_error env ''Trying to reconnect...''")
        case (Some e) with False Inr c g Suc.prems show ?thesis by auto
      next
        case None
        with False Inr c Suc.prems have "reconnect_loop env fuel ?s2 = Some (r, s')" by simp
        from Suc.IH[OF this] g2 show ?thesis by (rule grows_trans[rotated])
      qed
    qed
  qed
qed

lemma grows_read:
  assumes "read env fuel now ev s = Some (r, s')" shows "grows s s'"
proof (cases "ws s")
  case None with assms show ?thesis by (simp add: read_def)
next
  case (Some t)
  show ?thesis
  proof (cases ev)
    case (Recv message)
    with Some assms have "s' = snd (read_message env now message s)"
      by (auto simp: read_def)
    then show ?thesis using grows_read_message[of s s] by simp
  next
    case RecvClosed
    with Some assms obtain r1 where "reconnect_loop env fuel (logmsg ERROR ''{}'' [] s) = Some (r1, s')"
      by (auto simp: read_def split: option.splits sum.splits)
    from grows_reconnect_loop[OF this] show ?thesis by (simp add: grows_def logmsg_def)
  next
    case (RecvError e)
    with Some assms show ?thesis by (simp add: read_def)
  qed
qed

lemma grows_do_ping: "grows s (snd (do_ping now s))"
proof -
  let ?f = "ping_frame (internal_pingid s + 1) now"
  have ids: "message_ids [?f] = []"
    by (simp add: message_ids_def map_filter_simps ping_frame_def)
  show ?thesis using ids
    by (auto simp: do_ping_def Let_def send_def grows_def split: option.splits)
qed

lemma grows_exec: "exec env fuel a s = Some s' \<Longrightarrow> grows s s'"
proof (cases a)
  case Connect then show "exec env fuel a s = Some s' \<Longrightarrow> grows s s'" using grows_connect by auto
next
  case (Read now ev) then show "exec env fuel a s = Some s' \<Longrightarrow> grows s s'" using grows_read by auto
next
  case (Say m d) then show "exec env fuel a s = Some s' \<Longrightarrow> grows s s'" using grows_say[of s s env m d] by auto
next
  case (Ping now) then show "exec env fuel a s = Some s' \<Longrightarrow> grows s s'" using grows_do_ping by auto
qed

lemma grows_run: "run env fuel acts s = Some s' \<Longrightarrow> grows s s'"
proof (induction acts arbitrary: s)
  case Nil then show ?case by simp
next
  case (Cons a acts)
  then obtain s1 where 1: "exec env fuel a s = Some s1" and 2: "run env fuel acts s1 = Some s'"
    by (auto split: option.splits)
  from grows_exec[OF 1] Cons.IH[OF 2] show ?case by (rule grows_trans)
qed

lemmas demo_defs = demo_def init_def alice_def robot_def hashbot_def ghost_def barebot_def
  general_def live_def

lemma say_user_path:
  assumes "\<not> prefix ''#'' d"
  shows "say env message (JStr d) s =
      orraise (getitem (user_nick_to_id s) (JStr d)) s (\<lambda>user.
      if CHR ''#'' \<notin> set d then
        orraise (getitem (user_map s) user) s (\<lambda>r.
        orraise (contains r ''is_bot'') s (\<lambda>has_is_bot.
        let s1 = (if \<not> has_is_bot
                  then logmsg ERROR ''is_bot property not found for user {}'' [JStr d] s
                  else s) in
        orraise (subscript r ''deleted'') s1 (\<lambda>deleted.
        orraise (if truthy deleted then Inr deleted else subscript r ''is_bot'') s1 (\<lambda>flag.
        if truthy flag then (Inr (), s1)
        else andthen (get_dm_id_by_user env user s1) (\<lambda>c s2. say_send message c s2)))))
      else andthen (get_dm_id_by_user env user s) (\<lambda>c s2. say_send message c s2))"
  using assms by (simp add: say_def sublist_single)

lemma get_dm_frame:
  "internal_msgid (snd (get_dm_id_by_user env u s)) = internal_msgid s
   \<and> sent (snd (get_dm_id_by_user env u s)) = sent s
   \<and> ws (snd (get_dm_id_by_user env u s)) = ws s"
  unfolding get_dm_id_by_user_def dm_open_def Let_def
  by (auto split: orraise_splits andthen_splits option.splits simp: logmsg_def)

section \<open>Directory cache: renames and presence\<close>

text \<open>
  The handler never changes the name index, whatever the event: the nick it compares
  with the record's nick is read from the record it has just stored.
\<close>

lemma on_user_change_keeps_nick_index:
  "user_nick_to_id (snd (on_user_change msg s)) = user_nick_to_id s"
  unfolding on_user_change_def
  by (auto split: orraise_splits option.splits if_splits sum.splits
      simp: Let_def read_old_nick_def getitem_def dest!: subscript_Inr)

text \<open>
  C1. Claim: when a \<^verbatim>\<open>user_change\<close> event carries a new name for a cached user, the
  old name leaves the name index (looking it up fails) and the new name maps to the
  same id. The code does not do that. Here alice (id \<^verbatim>\<open>U1\<close>) is cached under the name
  \<^verbatim>\<open>alice\<close> and the event renames her to \<^verbatim>\<open>alicia\<close>: the handler returns normally, the
  old name still resolves to \<^verbatim>\<open>U1\<close>, and looking up the new name raises \<^verbatim>\<open>KeyError\<close>.
\<close>

theorem on_user_change_rename_not_applied:
  "user_id_for_name demo (JStr ''alice'') = Inr (JStr ''U1'')
   \<and> fst (on_user_change rename_alice demo) = Inr ()
   \<and> getitem (user_map (snd (on_user_change rename_alice demo))) (JStr ''U1'')
        = subscript rename_alice ''user''
   \<and> user_id_for_name (snd (on_user_change rename_alice demo)) (JStr ''alice'') = Inr (JStr ''U1'')
   \<and> user_id_for_name (snd (on_user_change rename_alice demo)) (JStr ''alicia'') = Inl KeyError"
  by (simp add: on_user_change_def rename_alice_def demo_defs read_old_nick_def getitem_def
      user_id_for_name_def)

text \<open>
  C2, as the code has it. For a \<^verbatim>\<open>presence_change\<close> event with a \<^verbatim>\<open>presence\<close> and a
  hashable \<^verbatim>\<open>user\<close>: if the id is not in the user cache the handler raises \<^verbatim>\<open>KeyError\<close>
  and changes nothing, and \<^verbatim>\<open>read\<close>, which dispatched the event, raises it too; if the
  id is cached, the handler returns and the only change to the state is the \<^verbatim>\<open>presence\<close>
  field of that user's record.
\<close>

theorem on_presence_change_known_or_raises:
  assumes "m ''presence'' = Some p" and "m ''user'' = Some uid" and "key_of uid = Inr k"
  shows "(user_map s k = None \<longrightarrow>
            on_presence_change (JObj m) s = (Inl KeyError, s) \<and>
            (ws s \<noteq> None \<and> m ''type'' = Some (JStr ''presence_change'') \<and> m ''subtype'' = None \<longrightarrow>
               read env fuel now (Recv (JObj m)) s = Some (Inl KeyError, s)))
       \<and> (user_map s k = Some (JObj r) \<longrightarrow>
            on_presence_change (JObj m) s =
              (Inr (), s\<lparr>user_map := (user_map s)(k \<mapsto> JObj (r(''presence'' \<mapsto> p)))\<rparr>))"
  using assms
  by (auto simp: on_presence_change_def getitem_def read_def read_message_def
      func_name_of_def py_str_def handler_names_def call_handler_def)

theorem on_presence_change_known_or_raises_witness:
  "on_presence_change away_alice demo =
     (Inr (), demo\<lparr>user_map := (user_map demo)(KStr ''U1'' \<mapsto>
        JObj [''id'' \<mapsto> JStr ''U1'', ''name'' \<mapsto> JStr ''alice'',
              ''is_bot'' \<mapsto> JBool False, ''deleted'' \<mapsto> JBool False,
              ''presence'' \<mapsto> JStr ''away''])\<rparr>)
   \<and> on_presence_change away_stranger demo = (Inl KeyError, demo)
   \<and> read demo_env 1 0 (Recv away_stranger) demo = Some (Inl KeyError, demo)"
  using on_presence_change_known_or_raises[where
          m="[''type'' \<mapsto> JStr ''presence_change'', ''user'' \<mapsto> JStr ''U1'',
              ''presence'' \<mapsto> JStr ''away'']"
          and p="JStr ''away''" and uid="JStr ''U1''" and k="KStr ''U1''" and s=demo
          and r="[''id'' \<mapsto> JStr ''U1'', ''name'' \<mapsto> JStr ''alice'',
                  ''is_bot'' \<mapsto> JBool False, ''deleted'' \<mapsto> JBool False]"]
        on_presence_change_known_or_raises[where
          m="[''type'' \<mapsto> JStr ''presence_change'', ''user'' \<mapsto> JStr ''U404'',
              ''presence'' \<mapsto> JStr ''away'']"
          and p="JStr ''away''" and uid="JStr ''U404''" and k="KStr ''U404''" and s=demo
          and env=demo_env and fuel=1 and now=0]
  by (simp add: away_alice_def away_stranger_def demo_defs)

text \<open>
  C2 as stated fails: the event names a user id that is not cached, the handler raises
  \<^verbatim>\<open>KeyError\<close>, and so does the \<^verbatim>\<open>read\<close> that dispatched it.
\<close>

theorem on_presence_change_unknown_id_raises:
  "getitem (user_map demo) (JStr ''U404'') = Inl KeyError
   \<and> on_presence_change away_stranger demo = (Inl KeyError, demo)
   \<and> read demo_env 1 0 (Recv away_stranger) demo = Some (Inl KeyError, demo)"
  by (simp add: away_stranger_def demo_defs getitem_def on_presence_change_def read_def
      read_message_def func_name_of_def py_str_def handler_names_def call_handler_def)

section \<open>say: bots and deleted accounts\<close>

text \<open>
  C3, as the code has it. When the destination has no \<^verbatim>\<open>#\<close> in it and resolves
  through the name index to a record whose \<^verbatim>\<open>deleted\<close> or \<^verbatim>\<open>is_bot\<close> is truthy, \<^verbatim>\<open>say\<close>
  writes nothing, leaves the message counter alone and does not ask for a DM channel.
  It returns normally if the record has a \<^verbatim>\<open>deleted\<close> field and raises \<^verbatim>\<open>KeyError\<close>
  if it has none.
\<close>

theorem say_drops_bot_or_deleted:
  assumes "CHR ''#'' \<notin> set d"
   and "getitem (user_nick_to_id s) (JStr d) = Inr user"
   and "getitem (user_map s) user = Inr (JObj r)"
   and "(\<exists>v. r ''deleted'' = Some v \<and> truthy v) \<or> (\<exists>v. r ''is_bot'' = Some v \<and> truthy v)"
  shows "sent (snd (say env message (JStr d) s)) = sent s
     \<and> internal_msgid (snd (say env message (JStr d) s)) = internal_msgid s
     \<and> dm_calls (snd (say env message (JStr d) s)) = dm_calls s
     \<and> fst (say env message (JStr d) s) = (if r ''deleted'' = None then Inl KeyError else Inr ())"
proof -
  from assms(1) have np: "\<not> prefix ''#'' d" by (cases d) auto
  show ?thesis
    using assms by (auto simp: say_user_path[OF np] logmsg_def split: option.splits)
qed

theorem say_drops_bot_or_deleted_witness:
  "say demo_env ''hi'' (JStr ''robot'') demo = (Inr (), demo)
   \<and> fst (say demo_env ''hi'' (JStr ''ghost'') demo) = Inr ()
   \<and> sent (snd (say demo_env ''hi'' (JStr ''ghost'') demo)) = []
   \<and> internal_msgid (snd (say demo_env ''hi'' (JStr ''ghost'') demo)) = 0
   \<and> fst (say demo_env ''hi'' (JStr ''barebot'') demo) = Inl KeyError
   \<and> sent (snd (say demo_env ''hi'' (JStr ''barebot'') demo)) = []
   \<and> internal_msgid (snd (say demo_env ''hi'' (JStr ''barebot'') demo)) = 0"
proof -
  have i: "sent demo = []" "internal_msgid demo = 0" by (simp_all add: demo_def init_def)
  have 1: "say demo_env ''hi'' (JStr ''robot'') demo = (Inr (), demo)"
    by (simp add: say_def sublist_single getitem_def demo_defs)
  have g: "CHR ''#'' \<notin> set ''ghost''"
    "getitem (user_nick_to_id demo) (JStr ''ghost'') = Inr (JStr ''U4'')"
    "getitem (user_map demo) (JStr ''U4'')
       = Inr (JObj [''id'' \<mapsto> JStr ''U4'', ''name'' \<mapsto> JStr ''ghost'', ''deleted'' \<mapsto> JBool True])"
    "(\<exists>v. [''id'' \<mapsto> JStr ''U4'', ''name'' \<mapsto> JStr ''ghost'', ''deleted'' \<mapsto> JBool True] ''deleted''
            = Some v \<and> truthy v) \<or>
     (\<exists>v. [''id'' \<mapsto> JStr ''U4'', ''name'' \<mapsto> JStr ''ghost'', ''deleted'' \<mapsto> JBool True] ''is_bot''
            = Some v \<and> truthy v)"
    by (simp_all add: getitem_def demo_defs)
  have b: "CHR ''#'' \<notin> set ''barebot''"
    "getitem (user_nick_to_id demo) (JStr ''barebot'') = Inr (JStr ''U5'')"
    "getitem (user_map demo) (JStr ''U5'')
       = Inr (JObj [''id'' \<mapsto> JStr ''U5'', ''name'' \<mapsto> JStr ''barebot'', ''is_bot'' \<mapsto> JBool True])"
    "(\<exists>v. [''id'' \<mapsto> JStr ''U5'', ''name'' \<mapsto> JStr ''barebot'', ''is_bot'' \<mapsto> JBool True] ''deleted''
            = Some v \<and> truthy v) \<or>
     (\<exists>v. [''id'' \<mapsto> JStr ''U5'', ''name'' \<mapsto> JStr ''barebot'', ''is_bot'' \<mapsto> JBool True] ''is_bot''
            = Some v \<and> truthy v)"
    by (simp_all add: getitem_def demo_defs)
  from say_drops_bot_or_deleted[OF g, where env=demo_env and message="''hi''"] i
  have 2: "fst (say demo_env ''hi'' (JStr ''ghost'') demo) = Inr ()
   \<and> sent (snd (say demo_env ''hi'' (JStr ''ghost'') demo)) = []
   \<and> internal_msgid (snd (say demo_env ''hi'' (JStr ''ghost'') demo)) = 0"
    by simp
  from say_drops_bot_or_deleted[OF b, where env=demo_env and message="''hi''"] i
  have 3: "fst (say demo_env ''hi'' (JStr ''barebot'') demo) = Inl KeyError
   \<and> sent (snd (say demo_env ''hi'' (JStr ''barebot'') demo)) = []
   \<and> internal_msgid (snd (say demo_env ''hi'' (JStr ''barebot'') demo)) = 0"
    by simp
  from 1 2 3 show ?thesis by blast
qed

text \<open>
  C3 as stated fails: \<^verbatim>\<open>ro#bot\<close> resolves through the name index to a record with
  \<^verbatim>\<open>is_bot\<close> and \<^verbatim>\<open>deleted\<close> both true, and \<^verbatim>\<open>say\<close> writes the message and consumes
  sequence id 1.
\<close>

theorem say_writes_to_bot_with_hash:
  "user_id_for_name demo (JStr ''ro#bot'') = Inr (JStr ''U3'')
   \<and> getitem (user_map demo) (JStr ''U3'') = Inr hashbot
   \<and> subscript hashbot ''is_bot'' = Inr (JBool True)
   \<and> subscript hashbot ''deleted'' = Inr (JBool True)
   \<and> fst (say demo_env ''hi'' (JStr ''ro#bot'') demo) = Inr ()
   \<and> sent (snd (say demo_env ''hi'' (JStr ''ro#bot'') demo)) = [envelope 1 (JStr ''D9'') ''hi'']
   \<and> internal_msgid (snd (say demo_env ''hi'' (JStr ''ro#bot'') demo)) = 1"
  by (simp add: user_id_for_name_def getitem_def demo_defs say_def sublist_single
      get_dm_id_by_user_def dm_open_def demo_env_def say_send_def send_def logmsg_def Let_def)

text \<open>
  C10. A destination with a \<^verbatim>\<open>#\<close> that is not its first character is looked up in the
  user name index (a miss raises there). On a hit \<^verbatim>\<open>say\<close> goes straight to the DM
  resolver and the send: the user's record is not consulted, so neither the deleted
  nor the bot test is made. If the resolver returns and the websocket is open, the
  envelope is written with the next sequence id, whatever the record says.
\<close>

theorem say_hash_inside_skips_checks:
  assumes "CHR ''#'' \<in> set d" and "\<not> prefix ''#'' d"
  shows "(getitem (user_nick_to_id s) (JStr d) = Inl e \<longrightarrow> say env message (JStr d) s = (Inl e, s))
     \<and> (getitem (user_nick_to_id s) (JStr d) = Inr user \<longrightarrow>
          say env message (JStr d) s =
            andthen (get_dm_id_by_user env user s) (\<lambda>c s1. say_send message c s1))
     \<and> (getitem (user_nick_to_id s) (JStr d) = Inr user \<and>
          fst (get_dm_id_by_user env user s) = Inr c \<and> ws s = Some t \<and> \<not> is_closed t \<longrightarrow>
          fst (say env message (JStr d) s) = Inr () \<and>
          sent (snd (say env message (JStr d) s)) =
            sent s @ [envelope (internal_msgid s + 1) c message] \<and>
          internal_msgid (snd (say env message (JStr d) s)) = internal_msgid s + 1)"
proof -
  have 1: "say env message (JStr d) s =
      orraise (getitem (user_nick_to_id s) (JStr d)) s (\<lambda>user.
        andthen (get_dm_id_by_user env user s) (\<lambda>c s2. say_send message c s2))"
    using assms by (simp add: say_user_path)
  { assume u: "getitem (user_nick_to_id s) (JStr d) = Inr user"
      and g: "fst (get_dm_id_by_user env user s) = Inr c" and w: "ws s = Some t" "\<not> is_closed t"
    obtain s1 where s1: "get_dm_id_by_user env user s = (Inr c, s1)"
      using g by (cases "get_dm_id_by_user env user s") auto
    with get_dm_frame[of env user s]
    have f: "internal_msgid s1 = internal_msgid s" "sent s1 = sent s" "ws s1 = ws s"
      by simp_all
    have "say env message (JStr d) s = say_send message c s1" using 1 u s1 by simp
    with f w have "fst (say env message (JStr d) s) = Inr () \<and>
          sent (snd (say env message (JStr d) s)) =
            sent s @ [envelope (internal_msgid s + 1) c message] \<and>
          internal_msgid (snd (say env message (JStr d) s)) = internal_msgid s + 1"
      by (simp add: say_send_def send_def logmsg_def Let_def) }
  then show ?thesis using 1 by auto
qed

theorem say_hash_inside_skips_checks_witness:
  "subscript hashbot ''is_bot'' = Inr (JBool True) \<and> subscript hashbot ''deleted'' = Inr (JBool True)
   \<and> getitem (user_map demo) (JStr ''U3'') = Inr hashbot
   \<and> say demo_env ''hi'' (JStr ''no#body'') demo = (Inl KeyError, demo)
   \<and> fst (say demo_env ''hi'' (JStr ''ro#bot'') demo) = Inr ()
   \<and> sent (snd (say demo_env ''hi'' (JStr ''ro#bot'') demo)) = [envelope 1 (JStr ''D9'') ''hi'']"
proof -
  have h: "CHR ''#'' \<in> set ''ro#bot''" "\<not> prefix ''#'' ''ro#bot''" by simp_all
  have g: "getitem (user_nick_to_id demo) (JStr ''ro#bot'') = Inr (JStr ''U3'')"
    by (simp add: getitem_def demo_defs)
  have r: "fst (get_dm_id_by_user demo_env (JStr ''U3'') demo) = Inr (JStr ''D9'')"
    by (simp add: get_dm_id_by_user_def dm_open_def demo_env_def demo_defs Let_def)
  have w: "ws demo = Some live" "\<not> is_closed live" by (simp_all add: demo_defs)
  have a: "subscript hashbot ''is_bot'' = Inr (JBool True)"
    "subscript hashbot ''deleted'' = Inr (JBool True)"
    "getitem (user_map demo) (JStr ''U3'') = Inr hashbot"
    by (simp_all add: hashbot_def demo_def init_def getitem_def)
  have i: "sent demo = []" "internal_msgid demo = 0" by (simp_all add: demo_def init_def)
  have h': "CHR ''#'' \<in> set ''no#body''" "\<not> prefix ''#'' ''no#body''" by simp_all
  have g': "getitem (user_nick_to_id demo) (JStr ''no#body'') = Inl KeyError"
    by (simp add: getitem_def demo_defs)
  from say_hash_inside_skips_checks[OF h', where s=demo and e=KeyError and env=demo_env
         and message="''hi''" and user=JNull and c=JNull and t=live] g'
  have m: "say demo_env ''hi'' (JStr ''no#body'') demo = (Inl KeyError, demo)" by blast
  from say_hash_inside_skips_checks[OF h, where s=demo and user="JStr ''U3''" and env=demo_env
         and message="''hi''" and c="JStr ''D9''" and t=live] g r w
  have "fst (say demo_env ''hi'' (JStr ''ro#bot'') demo) = Inr () \<and>
        sent (snd (say demo_env ''hi'' (JStr ''ro#bot'') demo)) =
          sent demo @ [envelope (internal_msgid demo + 1) (JStr ''D9'') ''hi'']"
    by blast
  with a i m show ?thesis by simp
qed

section \<open>read: routing of a decoded envelope\<close>



section \<open>authenticate\<close>

lemma process_connect_info_info:
  "info (snd (process_connect_info c s)) = info s"
  using unch_process_connect_info[of s s c] by (simp add: unch_def)

text \<open>
  C6. When the \<^verbatim>\<open>rtm.start\<close> response is an object whose \<^verbatim>\<open>ok\<close> is falsy,
  \<^verbatim>\<open>authenticate\<close> raises \<^verbatim>\<open>Exception\<close> with the message \<^verbatim>\<open>Slack Error: \<close> followed by
  the response's \<^verbatim>\<open>error\<close>, or by \<^verbatim>\<open>Unknown Error\<close> when there is none. When \<^verbatim>\<open>ok\<close> is
  truthy or missing, whatever \<^verbatim>\<open>authenticate\<close> returns is the response's \<^verbatim>\<open>url\<close>, and it
  does return it whenever the bootstrap of the caches from the response does not raise.
\<close>

theorem authenticate_reports_backend_failure:
  assumes "rtm_start env (auth_calls s) (token s) = Inr (JObj d)"
  shows "(d ''ok'' = Some okv \<and> \<not> truthy okv \<longrightarrow>
            fst (authenticate env s) =
              Inl (PyException (''Slack Error: '' @
                     (case d ''error'' of None \<Rightarrow> ''Unknown Error'' | Some e \<Rightarrow> py_str env e))))
       \<and> ((d ''ok'' = None \<or> (d ''ok'' = Some okv \<and> truthy okv)) \<longrightarrow>
            (fst (authenticate env s) = Inr v \<longrightarrow>
               v = (case d ''url'' of None \<Rightarrow> JNull | Some u \<Rightarrow> u)) \<and>
            (fst (process_connect_info (JObj d)
                   ((logmsg DEBUG ''Connecting to {}'' [] s)
                      \<lparr>auth_calls := auth_calls s + 1, info := JObj d\<rparr>)) = Inr () \<longrightarrow>
             fst (authenticate env s) = Inr (case d ''url'' of None \<Rightarrow> JNull | Some u \<Rightarrow> u)))"
proof -
  let ?s2 = "(logmsg DEBUG ''Connecting to {}'' [] s)
               \<lparr>auth_calls := auth_calls s + 1, info := JObj d\<rparr>"
  have bad: "d ''ok'' = Some okv \<and> \<not> truthy okv \<longrightarrow>
            fst (authenticate env s) =
              Inl (PyException (''Slack Error: '' @
                     (case d ''error'' of None \<Rightarrow> ''Unknown Error'' | Some e \<Rightarrow> py_str env e)))"
    using assms by (auto simp: authenticate_def Let_def py_str_def split: option.splits)
  have good: "authenticate env s =
      andthen (process_connect_info (JObj d) ?s2) (\<lambda>_ s3.
       orraise (dict_get (info s3) ''url'' JNull) s3 (\<lambda>u.
       (Inr u, logmsg DEBUG ''Got websocket url: {}'' [u] s3)))"
    if "d ''ok'' = None \<or> (d ''ok'' = Some okv \<and> truthy okv)"
    using assms that by (auto simp: authenticate_def Let_def)
  obtain r s3 where p: "process_connect_info (JObj d) ?s2 = (r, s3)"
    by (cases "process_connect_info (JObj d) ?s2")
  with process_connect_info_info[of "JObj d" ?s2] have i: "info s3 = JObj d" by simp
  have "(fst (authenticate env s) = Inr v \<longrightarrow>
           v = (case d ''url'' of None \<Rightarrow> JNull | Some u \<Rightarrow> u)) \<and>
        (fst (process_connect_info (JObj d) ?s2) = Inr () \<longrightarrow>
           fst (authenticate env s) = Inr (case d ''url'' of None \<Rightarrow> JNull | Some u \<Rightarrow> u))"
    if "d ''ok'' = None \<or> (d ''ok'' = Some okv \<and> truthy okv)"
    using good[OF that] p i by (cases r) auto
  with bad show ?thesis by blast
qed

theorem authenticate_reports_backend_failure_witness:
  "fst (authenticate demo_env (demo\<lparr>auth_calls := 1\<rparr>))
     = Inl (PyException ''Slack Error: invalid_auth'')
   \<and> fst (authenticate (demo_env\<lparr>rtm_start := (\<lambda>n tok. Inr rtm_silent)\<rparr>) demo)
     = Inl (PyException ''Slack Error: Unknown Error'')
   \<and> fst (authenticate demo_env (demo\<lparr>auth_calls := 2\<rparr>)) = Inr (JStr ''wss://example/2'')"
proof -
  have 1: "fst (authenticate demo_env (demo\<lparr>auth_calls := 1\<rparr>))
             = Inl (PyException ''Slack Error: invalid_auth'')"
    using authenticate_reports_backend_failure[where env=demo_env
            and s="demo\<lparr>auth_calls := 1\<rparr>" and okv="JBool False" and v=JNull
            and d="[''ok'' \<mapsto> JBool False, ''error'' \<mapsto> JStr ''invalid_auth'']"]
    by (simp add: demo_env_def rtm_refused_def py_str_def)
  have 2: "fst (authenticate (demo_env\<lparr>rtm_start := (\<lambda>n tok. Inr rtm_silent)\<rparr>) demo)
             = Inl (PyException ''Slack Error: Unknown Error'')"
    using authenticate_reports_backend_failure[where
            env="demo_env\<lparr>rtm_start := (\<lambda>n tok. Inr rtm_silent)\<rparr>"
            and s=demo and okv="JBool False" and v=JNull and d="[''ok'' \<mapsto> JBool False]"]
    by (simp add: rtm_silent_def)
  let ?d = "[''ok'' \<mapsto> JBool True, ''url'' \<mapsto> JStr ''wss://example/2'',
             ''self'' \<mapsto> JObj [''id'' \<mapsto> JStr ''B1'', ''name'' \<mapsto> JStr ''warmachine''],
             ''users'' \<mapsto> JList [alice]]"
  let ?s = "demo\<lparr>auth_calls := 2\<rparr>"
  have a: "rtm_start demo_env (auth_calls ?s) (token ?s) = Inr (JObj ?d)"
    by (simp add: demo_env_def rtm_ok_def)
  have b: "?d ''ok'' = Some (JBool True) \<and> truthy (JBool True)" by simp
  have c: "fst (process_connect_info (JObj ?d)
                   ((logmsg DEBUG ''Connecting to {}'' [] ?s)
                      \<lparr>auth_calls := auth_calls ?s + 1, info := JObj ?d\<rparr>)) = Inr ()"
    by (simp add: process_connect_info_def read_self_def logmsg_def map_user_def alice_def)
  have d: "(case ?d ''url'' of None \<Rightarrow> JNull | Some u \<Rightarrow> u) = JStr ''wss://example/2''"
    by simp
  from authenticate_reports_backend_failure[OF a, where okv="JBool True" and v=JNull] b c
  have "fst (authenticate demo_env ?s) = Inr (case ?d ''url'' of None \<Rightarrow> JNull | Some u \<Rightarrow> u)"
    by blast
  with d have 3: "fst (authenticate demo_env ?s) = Inr (JStr ''wss://example/2'')" by simp
  from 1 2 3 show ?thesis by blast
qed

section \<open>DM resolver\<close>

lemma dm_open_success:
  assumes "key_of u = Inr k" and "dm_cache s k = None"
    and "im_open env (length (dm_calls s)) (token s) u = Inr data"
    and "subscript data ''ok'' = Inr okv" and "truthy okv"
    and "subscript data ''channel'' = Inr ch" and "subscript ch ''id'' = Inr c"
  shows "get_dm_id_by_user env u s =
           (Inr c, s\<lparr>dm_calls := dm_calls s @ [u], dm_cache := (dm_cache s)(k \<mapsto> c)\<rparr>)"
  using assms by (simp add: get_dm_id_by_user_def dm_open_def Let_def)

lemma dm_hit:
  "key_of u = Inr k \<Longrightarrow> dm_cache s' k = Some c \<Longrightarrow> get_dm_id_by_user env u s' = (Inr c, s')"
  by (simp add: get_dm_id_by_user_def)

lemma run_keeps_dm:
  assumes "run env fuel acts s1 = Some s2" and "dm_cache s1 k = Some c"
  shows "dm_cache s2 k = Some c"
proof -
  from grows_run[OF assms(1)] have "dm_cache s1 \<subseteq>\<^sub>m dm_cache s2" by (simp add: grows_def)
  with assms(2) show ?thesis unfolding map_le_def by (metis domI)
qed

text \<open>
  C7. Let \<open>u\<close> be a user id that is not in the DM cache, and let the \<^verbatim>\<open>im.open\<close> request
  for it succeed with channel id \<open>c\<close>. Then the first call of the resolver returns \<open>c\<close>
  after exactly one request; a second call returns \<open>c\<close> and leaves the state as it is,
  so it makes no request; and after any sequence of \<^verbatim>\<open>connect\<close>, \<^verbatim>\<open>read\<close>, \<^verbatim>\<open>say\<close> and
  \<^verbatim>\<open>do_ping\<close> calls the cache still maps \<open>u\<close> to \<open>c\<close> and the resolver still answers \<open>c\<close>
  without a request.
\<close>

theorem dm_resolver_memoizes:
  assumes "key_of u = Inr k" and "dm_cache s k = None"
    and "im_open env (length (dm_calls s)) (token s) u = Inr data"
    and "subscript data ''ok'' = Inr okv" and "truthy okv"
    and "subscript data ''channel'' = Inr ch" and "subscript ch ''id'' = Inr c"
  shows "fst (get_dm_id_by_user env u s) = Inr c
     \<and> dm_calls (snd (get_dm_id_by_user env u s)) = dm_calls s @ [u]
     \<and> get_dm_id_by_user env u (snd (get_dm_id_by_user env u s))
          = (Inr c, snd (get_dm_id_by_user env u s))
     \<and> (run env fuel acts (snd (get_dm_id_by_user env u s)) = Some s2 \<longrightarrow>
          dm_cache s2 k = Some c \<and> get_dm_id_by_user env u s2 = (Inr c, s2))"
proof -
  define s1 where "s1 = s\<lparr>dm_calls := dm_calls s @ [u], dm_cache := (dm_cache s)(k \<mapsto> c)\<rparr>"
  have 1: "get_dm_id_by_user env u s = (Inr c, s1)"
    unfolding s1_def using assms by (rule dm_open_success)
  have 2: "dm_cache s1 k = Some c" and 3: "dm_calls s1 = dm_calls s @ [u]"
    by (simp_all add: s1_def)
  have 4: "get_dm_id_by_user env u s1 = (Inr c, s1)" using assms(1) 2 by (rule dm_hit)
  have 5: "run env fuel acts s1 = Some s2 \<longrightarrow>
          dm_cache s2 k = Some c \<and> get_dm_id_by_user env u s2 = (Inr c, s2)"
    using run_keeps_dm[of env fuel acts s1 s2 k c] 2 dm_hit[OF assms(1), of s2 c env] by blast
  show ?thesis unfolding 1 fst_conv snd_conv using 3 4 5 by blast
qed

theorem dm_resolver_memoizes_witness:
  "fst (get_dm_id_by_user demo_env (JStr ''U1'') demo) = Inr (JStr ''D9'')
   \<and> dm_calls (snd (get_dm_id_by_user demo_env (JStr ''U1'') demo)) = [JStr ''U1'']
   \<and> get_dm_id_by_user demo_env (JStr ''U1'') (snd (get_dm_id_by_user demo_env (JStr ''U1'') demo))
        = (Inr (JStr ''D9''), snd (get_dm_id_by_user demo_env (JStr ''U1'') demo))
   \<and> dm_cache (snd (do_ping 1 (snd (say demo_env ''hi'' (JStr ''robot'')
         (snd (get_dm_id_by_user demo_env (JStr ''U1'') demo)))))) (KStr ''U1'') = Some (JStr ''D9'')"
proof -
  let ?s1 = "snd (get_dm_id_by_user demo_env (JStr ''U1'') demo)"
  let ?s2 = "snd (do_ping 1 (snd (say demo_env ''hi'' (JStr ''robot'') ?s1)))"
  have a: "key_of (JStr ''U1'') = Inr (KStr ''U1'')" "dm_cache demo (KStr ''U1'') = None"
    "im_open demo_env (length (dm_calls demo)) (token demo) (JStr ''U1'')
       = Inr (JObj [''ok'' \<mapsto> JBool True, ''channel'' \<mapsto> JObj [''id'' \<mapsto> JStr ''D9'']])"
    "subscript (JObj [''ok'' \<mapsto> JBool True, ''channel'' \<mapsto> JObj [''id'' \<mapsto> JStr ''D9'']])
       ''ok'' = Inr (JBool True)"
    "truthy (JBool True)"
    "subscript (JObj [''ok'' \<mapsto> JBool True, ''channel'' \<mapsto> JObj [''id'' \<mapsto> JStr ''D9'']])
       ''channel'' = Inr (JObj [''id'' \<mapsto> JStr ''D9''])"
    "subscript (JObj [''id'' \<mapsto> JStr ''D9'']) ''id'' = Inr (JStr ''D9'')"
    by (simp_all add: demo_def init_def demo_env_def)
  have d: "dm_calls demo = []" by (simp add: demo_def init_def)
  have r: "run demo_env 0 [Say ''hi'' (JStr ''robot''), Ping 1] ?s1 = Some ?s2" by simp
  note t = dm_resolver_memoizes[OF a, where fuel=0
             and acts="[Say ''hi'' (JStr ''robot''), Ping 1]" and ?s2.0="?s2"]
  from t r d show ?thesis by (simp only: append_Nil)
qed

lemmas eval_connect = connect_def authenticate_def rtm_ok_def rtm_refused_def
  process_connect_info_def read_self_def map_user_def logmsg_def Let_def py_str_def

lemmas eval_say = say_def sublist_single getitem_def get_dm_id_by_user_def dm_open_def
  say_send_def send_def envelope_def

section \<open>Outbound sequence ids\<close>

lemma message_ids_envelope: "message_ids [envelope i c m] = [of_int i]"
  by (simp add: message_ids_def map_filter_simps envelope_def)

lemma say_send_effect:
  "internal_msgid (snd (say_send m d s)) = internal_msgid s + 1 \<and>
   (sent (snd (say_send m d s)) = sent s \<or>
    sent (snd (say_send m d s)) = sent s @ [envelope (internal_msgid s + 1) d m])"
  by (simp add: say_send_def send_def Let_def logmsg_def split: option.splits)

lemma one_send_same: "sent s' = sent s \<Longrightarrow> internal_msgid s' = internal_msgid s \<Longrightarrow> one_send s s'"
  by (simp add: one_send_def)

lemma one_send_say_send:
  assumes "sent s1 = sent s" and "internal_msgid s1 = internal_msgid s"
  shows "one_send s (snd (say_send m d s1))"
  using say_send_effect[of m d s1] assms
  by (auto simp: one_send_def message_ids_append message_ids_envelope)

lemma one_send_resolve_send:
  assumes "sent s1 = sent s" and "internal_msgid s1 = internal_msgid s"
  shows "one_send s (snd (andthen (get_dm_id_by_user env user s1) (\<lambda>c s2. say_send m c s2)))"
proof (cases "get_dm_id_by_user env user s1")
  case (Pair r s2)
  with get_dm_frame[of env user s1] assms
  have f: "sent s2 = sent s" "internal_msgid s2 = internal_msgid s" by simp_all
  show ?thesis
  proof (cases r)
    case (Inl e) with Pair f show ?thesis by (simp add: one_send_same)
  next
    case (Inr c) with Pair one_send_say_send[OF f] show ?thesis by simp
  qed
qed

lemmas one_send_orraise = orraise_snd[where P = "one_send s0" for s0]

lemma logmsg_same:
  "sent (logmsg l f a s) = sent s" "internal_msgid (logmsg l f a s) = internal_msgid s"
  by (simp_all add: logmsg_def)

lemma one_send_base [simp]: "one_send s s" "one_send s (logmsg l f a s)"
  by (simp_all add: one_send_def logmsg_def)

lemma one_send_say: "one_send s (snd (say env m d s))"
  unfolding say_def Let_def
  by (auto intro!: one_send_orraise one_send_resolve_send one_send_say_send simp: logmsg_same)

lemma reconnect_loop_counter:
  "reconnect_loop env fuel s = Some (r, s') \<Longrightarrow> internal_msgid s' = internal_msgid s"
proof (induction fuel arbitrary: s)
  case 0 then show ?case by simp
next
  case (Suc fuel)
  obtain res s1 where c: "connect env s = (res, s1)" by (cases "connect env s")
  with connect_frame[where s=s and env=env] have g: "internal_msgid s1 = internal_msgid s"
    by (auto simp: unch_def)
  show ?case
  proof (cases res)
    case (Inl e) with c g Suc.prems show ?thesis by auto
  next
    case (Inr ok)
    show ?thesis
    proof (cases "ok \<or> self_error env ''Trying to reconnect...'' \<noteq> None")
      case True with Inr c g Suc.prems show ?thesis by (auto split: if_splits option.splits)
    next
      case False
      with Inr c Suc.prems
      have "reconnect_loop env fuel (s1\<lparr>sleeps := sleeps s1 @ [300]\<rparr>) = Some (r, s')" by auto
      from Suc.IH[OF this] g show ?thesis by simp
    qed
  qed
qed

lemma ids_ok_grows:
  assumes "ids_ok s0" and "grows s0 s" shows "ids_ok s"
proof -
  from assms(2) obtain new where n: "sent s = sent s0 @ new" "sorted_wrt (<) (message_ids new)"
    "\<forall>r\<in>set (message_ids new). real_of_int (internal_msgid s0) < r \<and> r \<le> real_of_int (internal_msgid s)"
    and m: "internal_msgid s0 \<le> internal_msgid s"
    unfolding grows_def by blast
  from assms(1) have o: "sorted_wrt (<) (message_ids (sent s0))"
    "\<forall>r\<in>set (message_ids (sent s0)). r \<le> real_of_int (internal_msgid s0)"
    by (simp_all add: ids_ok_def list_all_iff)
  have 1: "sorted_wrt (<) (message_ids (sent s))"
    using n o by (fastforce simp: message_ids_append sorted_wrt_append)
  have 2: "\<forall>r\<in>set (message_ids (sent s)). r \<le> real_of_int (internal_msgid s)"
    using n o m by (fastforce simp: message_ids_append)
  from 1 2 show ?thesis by (simp add: ids_ok_def list_all_iff)
qed

text \<open>
  C8. Start from a state whose written message ids are strictly increasing and not above
  the counter, as in a new connector, and let any sequence of \<^verbatim>\<open>connect\<close>, \<^verbatim>\<open>read\<close>,
  \<^verbatim>\<open>say\<close> and \<^verbatim>\<open>do_ping\<close> calls run. Afterwards the written message ids are still
  strictly increasing, hence distinct, and the counter has not gone down. A further
  \<^verbatim>\<open>say\<close> moves the counter by at most one, and if it writes a frame the counter has
  moved by exactly one and the frame carries the new value. \<^verbatim>\<open>connect\<close> leaves the
  counter as it is, and so does a \<^verbatim>\<open>read\<close> that finds the websocket closed and
  reconnects.
\<close>

theorem outbound_ids_increase:
  assumes "ids_ok s0" and "run env fuel acts s0 = Some s"
  shows "ids_ok (init tok) \<and> ids_ok s \<and> distinct (message_ids (sent s))
     \<and> internal_msgid s0 \<le> internal_msgid s
     \<and> internal_msgid s \<le> internal_msgid (snd (say env message destination s))
     \<and> internal_msgid (snd (say env message destination s)) \<le> internal_msgid s + 1
     \<and> (sent (snd (say env message destination s)) \<noteq> sent s \<longrightarrow>
          internal_msgid (snd (say env message destination s)) = internal_msgid s + 1 \<and>
          message_ids (sent (snd (say env message destination s)))
            = message_ids (sent s) @ [of_int (internal_msgid s + 1)])
     \<and> internal_msgid (snd (connect env s)) = internal_msgid s
     \<and> (read env fuel2 now RecvClosed s = Some (res, s') \<longrightarrow> internal_msgid s' = internal_msgid s)"
proof -
  have 0: "ids_ok (init tok)" by (simp add: ids_ok_def init_def)
  from grows_run[OF assms(2)] have g: "grows s0 s" .
  from ids_ok_grows[OF assms(1) g] have 1: "ids_ok s" .
  then have "sorted_wrt (<) (message_ids (sent s))" by (simp add: ids_ok_def)
  then have d: "distinct (message_ids (sent s))" using strict_sorted_iff by blast
  from g have m: "internal_msgid s0 \<le> internal_msgid s" by (simp add: grows_def)
  have 2: "internal_msgid (snd (connect env s)) = internal_msgid s"
    using connect_frame[where s=s and env=env] by (auto simp: unch_def)
  have 3: "read env fuel2 now RecvClosed s = Some (res, s') \<longrightarrow> internal_msgid s' = internal_msgid s"
  proof
    assume r: "read env fuel2 now RecvClosed s = Some (res, s')"
    show "internal_msgid s' = internal_msgid s"
    proof (cases "ws s")
      case None with r show ?thesis by (simp add: read_def)
    next
      case (Some t)
      with r obtain r1 where "reconnect_loop env fuel2 (logmsg ERROR ''{}'' [] s) = Some (r1, s')"
        by (auto simp: read_def split: option.splits sum.splits)
      from reconnect_loop_counter[OF this] show ?thesis by (simp add: logmsg_def)
    qed
  qed
  from one_send_say[of s env message destination]
  have 4: "internal_msgid s \<le> internal_msgid (snd (say env message destination s))
     \<and> internal_msgid (snd (say env message destination s)) \<le> internal_msgid s + 1
     \<and> (sent (snd (say env message destination s)) \<noteq> sent s \<longrightarrow>
          internal_msgid (snd (say env message destination s)) = internal_msgid s + 1 \<and>
          message_ids (sent (snd (say env message destination s)))
            = message_ids (sent s) @ [of_int (internal_msgid s + 1)])"
    by (auto simp: one_send_def)
  from 0 1 d m 2 3 4 show ?thesis by blast
qed

theorem outbound_ids_increase_witness:
  "ids_ok demo
   \<and> map_option (\<lambda>s. message_ids (sent s)) (run demo_env 3 chatter demo) = Some [1, 2, 3]
   \<and> map_option internal_msgid (run demo_env 3 chatter demo) = Some 3
   \<and> map_option auth_calls (run demo_env 3 chatter demo) = Some 3
   \<and> map_option ids_ok (run demo_env 3 chatter demo) = Some True"
proof -
  have i: "ids_ok demo" by (simp add: ids_ok_def demo_def init_def)
  have e: "map_option (\<lambda>s. (message_ids (sent s), internal_msgid s, auth_calls s))
             (run demo_env 3 chatter demo) = Some ([1, 2, 3], 3, 3)"
    by (simp add: chatter_def demo_defs demo_env_def eval_say eval_connect read_def
         do_ping_def ping_frame_def message_ids_def List.map_filter_def numeral_3_eq_3)
  then obtain s where r: "run demo_env 3 chatter demo = Some s" by auto
  from outbound_ids_increase[OF i r, where tok="''xoxb''" and message="''hi''" and destination="JNull"
          and now=0 and ?fuel2.0=0 and res="Inr JNull" and s'=demo]
  have "ids_ok s" by blast
  with i e r show ?thesis by auto
qed

section \<open>Heartbeat\<close>

text \<open>
  C9, as the code has it. \<^verbatim>\<open>do_ping\<close> takes the next heartbeat id, a counter of its own
  (the message counter does not move). On an open websocket it writes the probe with
  that id and the time in milliseconds, then asks the event loop to call \<^verbatim>\<open>start_ping\<close>
  in 4 seconds, which schedules the next \<^verbatim>\<open>do_ping\<close>. Without a websocket, or on a
  closed one, the send raises, the exception leaves \<^verbatim>\<open>do_ping\<close>, and nothing is
  scheduled.
\<close>

theorem do_ping_sends_then_reschedules:
  "internal_pingid (snd (do_ping now s)) = internal_pingid s + 1
   \<and> internal_msgid (snd (do_ping now s)) = internal_msgid s
   \<and> (ws s = Some t \<and> \<not> is_closed t \<longrightarrow>
        fst (do_ping now s) = Inr () \<and>
        sent (snd (do_ping now s)) = sent s @ [ping_frame (internal_pingid s + 1) now] \<and>
        call_later (snd (do_ping now s)) = call_later s @ [(4, StartPing)] \<and>
        futures (fire StartPing (snd (do_ping now s))) = futures s @ [DoPing])
   \<and> (ws s = None \<or> (ws s = Some t \<and> is_closed t) \<longrightarrow>
        fst (do_ping now s) = Inl (if ws s = None then AttributeError else ConnectionClosed) \<and>
        sent (snd (do_ping now s)) = sent s \<and>
        call_later (snd (do_ping now s)) = call_later s)"
  by (auto simp: do_ping_def send_def Let_def start_ping_def split: option.splits)

theorem do_ping_sends_then_reschedules_witness:
  "fst (do_ping 7 demo) = Inr ()
   \<and> sent (snd (do_ping 7 demo)) = [ping_frame 1 7]
   \<and> call_later (snd (do_ping 7 demo)) = [(4, StartPing)]
   \<and> internal_msgid (snd (do_ping 7 demo)) = 0
   \<and> fst (do_ping 7 dropped) = Inl ConnectionClosed
   \<and> call_later (snd (do_ping 7 dropped)) = []
   \<and> fst (do_ping 7 (init ''xoxb'')) = Inl AttributeError
   \<and> call_later (snd (do_ping 7 (init ''xoxb''))) = []"
proof -
  have a: "ws demo = Some live" "\<not> is_closed live" "sent demo = []" "call_later demo = []"
    "internal_pingid demo = 0" "internal_msgid demo = 0"
    by (simp_all add: demo_defs)
  have b: "ws dropped = Some (live\<lparr>is_closed := True\<rparr>)" "is_closed (live\<lparr>is_closed := True\<rparr>)"
     "call_later dropped = []"
    by (simp_all add: dropped_def demo_defs)
  note t1 = do_ping_sends_then_reschedules[where s=demo and t=live and now=7]
  note t2 = do_ping_sends_then_reschedules[where s=dropped and t="live\<lparr>is_closed := True\<rparr>" and now=7]
  note t3 = do_ping_sends_then_reschedules[where s="init ''xoxb''" and t=live and now=7]
  have c: "ws (init ''xoxb'') = None" "call_later (init ''xoxb'') = []" by (simp_all add: init_def)
  from t1 a t2 b t3 c show ?thesis by simp
qed

text \<open>
  C9 as stated fails: on a websocket the peer has closed, the send raises
  \<^verbatim>\<open>ConnectionClosed\<close> and the heartbeat is not rescheduled.
\<close>

theorem do_ping_failed_send_not_rescheduled:
  "fst (do_ping 7 dropped) = Inl ConnectionClosed
   \<and> call_later dropped = [] \<and> call_later (snd (do_ping 7 dropped)) = []
   \<and> futures (snd (do_ping 7 dropped)) = []"
  by (simp add: do_ping_def send_def Let_def dropped_def demo_defs)

section \<open>read: the reconnect loop\<close>





text \<open>
  When the call \<^verbatim>\<open>self.error(...)\<close> raises, the first falsy \<^verbatim>\<open>connect\<close> ends the loop
  with that exception, before any sleep.
\<close>

lemma reconnect_loop_error_call_raises:
  assumes "self_error env ''Trying to reconnect...'' = Some e"
    and "fst (connect env s) = Inr False"
  shows "reconnect_loop env (Suc fuel) s = Some (Inl e, snd (connect env s))"
  using assms by (cases "connect env s") auto




end
